theory Spec2Isabelle
  imports Complex_Main
begin

section \<open>Numbers\<close>

text \<open>
  JavaScript numbers are modelled by exact reals: item sizes, offsets, scroll positions and
  the scroll multiplier are \<open>real\<close>, indices are \<open>int\<close>, counts are \<open>nat\<close>.
  Rounding, \<open>NaN\<close> and the infinities of IEEE doubles are outside this model.
\<close>

definition MAX_SAFE_SCROLL_HEIGHT :: real where
  "MAX_SAFE_SCROLL_HEIGHT = 15000000"

text \<open>Truncation towards zero, the first step of \<open>x | 0\<close>.\<close>

definition trunc_zero :: "real \<Rightarrow> int" where
  "trunc_zero x = (if 0 \<le> x then \<lfloor>x\<rfloor> else \<lceil>x\<rceil>)"

text \<open>\<open>x | 0\<close>: truncate, wrap modulo \<open>2^32\<close>, read as a signed 32-bit integer.\<close>

definition to_int32 :: "real \<Rightarrow> int" where
  "to_int32 x =
     (let m = trunc_zero x mod 4294967296
      in if 2147483648 \<le> m then m - 4294967296 else m)"

text \<open>\<open>info[i] ?? 0\<close> on a typed array: an index past the end reads \<open>undefined\<close>.\<close>

definition at_or_zero :: "real list \<Rightarrow> nat \<Rightarrow> real" where
  "at_or_zero info i = (if i < length info then info ! i else 0)"

datatype js_error =
    RangeError
  | NotInitialized
  | LoadError string

section \<open>Engine gateway (core/wasm.ts)\<close>

datatype WasmStatus = Idle | Initializing | Ready | Failed

text \<open>
  The three module variables of the gateway, and the point at which the asynchronous body
  of \<open>initializeWasm\<close> is suspended. \<open>promiseCounter\<close> names the promise objects
  created so far and \<open>loadsStarted\<close> counts the dynamic imports begun; both are
  bookkeeping of the model. The timing statistics are left out.
\<close>

datatype body_pc = NotRunning | AwaitImport | AwaitInit

record gateway =
  wasmModule :: bool
  wasmStatus :: WasmStatus
  wasmError :: "js_error option"
  initializationPromise :: "nat option"
  body :: body_pc
  promiseCounter :: nat
  loadsStarted :: nat

definition idle_gateway :: gateway where
  "idle_gateway =
     \<lparr>wasmModule = False, wasmStatus = Idle, wasmError = None,
      initializationPromise = None, body = NotRunning, promiseCounter = 0,
      loadsStarted = 0\<rparr>"

definition setStatus :: "WasmStatus \<Rightarrow> js_error option \<Rightarrow> gateway \<Rightarrow> gateway" where
  "setStatus st err g = g\<lparr>wasmStatus := st, wasmError := err\<rparr>"

text \<open>
  What a call of \<open>initializeWasm\<close> hands back: the promise object \<open>Pending p\<close>
  stored in \<open>initializationPromise\<close>, or a fresh promise that is already resolved.
\<close>

datatype promise = Pending nat | Resolved

definition initializeWasm :: "gateway \<Rightarrow> promise \<times> gateway" where
  "initializeWasm g =
     (case initializationPromise g of
        Some p \<Rightarrow> (Pending p, g)
      | None \<Rightarrow>
          if wasmStatus g = Ready then (Resolved, g)
          else
            let g1 = setStatus Initializing None g;
                p = promiseCounter g1
            in (Pending p,
                g1\<lparr>initializationPromise := Some p, body := AwaitImport,
                   promiseCounter := p + 1, loadsStarted := loadsStarted g1 + 1\<rparr>))"

text \<open>The \<open>catch\<close> and \<open>finally\<close> blocks of the asynchronous body.\<close>

definition load_failed :: "js_error \<Rightarrow> gateway \<Rightarrow> gateway" where
  "load_failed e g =
     (setStatus Failed (Some e) g)\<lparr>initializationPromise := None, body := NotRunning\<rparr>"

text \<open>
  The body resumes after \<open>await import(...)\<close>: on success it stores the bindings and
  suspends again at \<open>await wasmInit()\<close>.
\<close>

definition import_settled :: "js_error option \<Rightarrow> gateway \<Rightarrow> gateway" where
  "import_settled r g =
     (if body g \<noteq> AwaitImport then g
      else case r of
             Some e \<Rightarrow> load_failed e g
           | None \<Rightarrow> g\<lparr>wasmModule := True, body := AwaitInit\<rparr>)"

text \<open>
  The body resumes after \<open>await wasmInit()\<close>; \<open>r\<close> is the error raised by
  \<open>wasmInit\<close> or by \<open>get_version\<close>, if any. A failing benchmark is swallowed by
  the inner \<open>try\<close> and changes nothing modelled here.
\<close>

definition init_settled :: "js_error option \<Rightarrow> gateway \<Rightarrow> gateway" where
  "init_settled r g =
     (if body g \<noteq> AwaitInit then g
      else case r of
             Some e \<Rightarrow> load_failed e g
           | None \<Rightarrow> (setStatus Ready None g)\<lparr>initializationPromise := None, body := NotRunning\<rparr>)"

definition getWasmModule :: "gateway \<Rightarrow> js_error + unit" where
  "getWasmModule g =
     (if wasmStatus g \<noteq> Ready \<or> \<not> wasmModule g then Inl NotInitialized else Inr ())"

text \<open>
  What happens to the gateway over time: a caller invokes \<open>initializeWasm\<close>, the
  dynamic import settles, \<open>wasmInit\<close> settles.
\<close>

datatype gw_event = Call | ImportSettled "js_error option" | InitSettled "js_error option"

fun gw_step :: "gw_event \<Rightarrow> gateway \<Rightarrow> gateway" where
  "gw_step Call g = snd (initializeWasm g)"
| "gw_step (ImportSettled r) g = import_settled r g"
| "gw_step (InitSettled r) g = init_settled r g"

fun gw_run :: "gw_event list \<Rightarrow> gateway \<Rightarrow> gateway" where
  "gw_run [] g = g"
| "gw_run (e # es) g = gw_run es (gw_step e g)"

section \<open>Engine handles\<close>

text \<open>
  The engine is not part of the repository's sources; only its interface is. A handle
  records what it was created with, and the engine's answers are parameters: functions of
  the handle's contents and of the arguments of the call.
\<close>

record QuantumUniform =
  uh_id :: nat
  uh_count :: nat
  uh_size :: real

record QuantumVariable =
  vh_id :: nat
  vh_sizes :: "real list"

record engine =
  u_calc_range :: "nat \<Rightarrow> real \<Rightarrow> real \<Rightarrow> real \<Rightarrow> real \<Rightarrow> real list"
  v_calc_range :: "real list \<Rightarrow> real \<Rightarrow> real \<Rightarrow> real \<Rightarrow> real list"
  v_get_offset :: "real list \<Rightarrow> int \<Rightarrow> real"
  v_get_size :: "real list \<Rightarrow> int \<Rightarrow> real"

text \<open>Every call that crosses into the engine, by handle.\<close>

datatype engine_op =
    Create nat
  | Free nat
  | SetCount nat
  | CalcRange nat
  | GetOffset nat
  | GetSize nat

fun handle_of :: "engine_op \<Rightarrow> nat" where
  "handle_of (Create h) = h"
| "handle_of (Free h) = h"
| "handle_of (SetCount h) = h"
| "handle_of (CalcRange h) = h"
| "handle_of (GetOffset h) = h"
| "handle_of (GetSize h) = h"

section \<open>Controller (components/virtualizer.gts)\<close>

record VirtualRange =
  startIndex :: int
  endIndex :: int
  items :: "int list"
  offsets :: "real list"
  sizes :: "real list"
  totalHeight :: real
  paddingTop :: real

record Args =
  itemCount :: nat
  estimateSize :: "nat \<Rightarrow> real"
  overscan :: "real option"
  horizontal :: "bool option"

record element =
  el_id :: nat
  scrollLeft :: real
  scrollTop :: real
  clientWidth :: real
  clientHeight :: real

text \<open>
  The fields of the component. \<open>rangeRef\<close> is the identity of the object held by
  \<open>rangeV\<close> (the tracked field \<open>range\<close>): every evaluation of the object literal in
  \<open>calculateRange\<close> makes a new one.
\<close>

record controller =
  isLoading :: bool
  errorV :: "js_error option"
  rangeV :: VirtualRange
  rangeRef :: nat
  elementV :: "element option"
  virtualizer :: "QuantumVariable option"
  uniformVirtualizer :: "QuantumUniform option"
  isUniform :: bool
  uniformSize :: real
  scrollMultiplier :: real
  lastStart :: int
  lastEnd :: int
  lastPaddingTop :: real
  rafId :: nat
  rafPending :: bool
  wasmReady :: bool

definition new_controller :: controller where
  "new_controller =
     \<lparr>isLoading = True, errorV = None,
      rangeV = \<lparr>startIndex = 0, endIndex = 0, items = [], offsets = [], sizes = [],
                totalHeight = 0, paddingTop = 0\<rparr>,
      rangeRef = 0, elementV = None, virtualizer = None, uniformVirtualizer = None,
      isUniform = False, uniformSize = 0, scrollMultiplier = 1,
      lastStart = - 1, lastEnd = - 1, lastPaddingTop = 0,
      rafId = 0, rafPending = False, wasmReady = False\<rparr>"

text \<open>The callbacks the component hands to \<open>requestAnimationFrame\<close>.\<close>

datatype callback = SetupFrame | Recalc | ScrollStage1 | ScrollStage2

text \<open>
  The component together with what surrounds it: its arguments, the gateway, the browser's
  queue of animation-frame callbacks (oldest first, with their ids), the engine calls made
  so far (newest first), the indices \<open>estimateSize\<close> was called with (oldest first),
  and whether \<open>initialize\<close> is still suspended at its \<open>await\<close>.
\<close>

record world =
  ctl :: controller
  args :: Args
  gw :: gateway
  rafQueue :: "(nat \<times> callback) list"
  rafCounter :: nat
  engineLog :: "engine_op list"
  handleCounter :: nat
  objCounter :: nat
  estimateCalls :: "nat list"
  initAwaiting :: bool

definition requestAnimationFrame :: "callback \<Rightarrow> world \<Rightarrow> nat \<times> world" where
  "requestAnimationFrame cb w =
     (let i = rafCounter w + 1
      in (i, w\<lparr>rafCounter := i, rafQueue := rafQueue w @ [(i, cb)]\<rparr>))"

definition cancelAnimationFrame :: "nat \<Rightarrow> world \<Rightarrow> world" where
  "cancelAnimationFrame i w = w\<lparr>rafQueue := filter (\<lambda>e. fst e \<noteq> i) (rafQueue w)\<rparr>"

definition log_ops :: "engine_op list \<Rightarrow> world \<Rightarrow> world" where
  "log_ops ops w = w\<lparr>engineLog := rev ops @ engineLog w\<rparr>"

subsection \<open>calculateRange\<close>

text \<open>The paths on which \<open>calculateRange\<close> can end.\<close>

datatype outcome =
    NoElement
  | Rescheduled
  | NoHandle
  | Skipped
  | Threw js_error
  | Published

text \<open>
  The range query (\<open>if (isUniform && uniformVirtualizer) ... else if (virtualizer) ...
  else return\<close>): the array the engine returned and the handle asked.
\<close>

definition queryRange ::
  "engine \<Rightarrow> controller \<Rightarrow> real \<Rightarrow> real \<Rightarrow> real \<Rightarrow> (real list \<times> nat) option" where
  "queryRange eng c virtualScroll viewportSize ov =
     (if isUniform c \<and> uniformVirtualizer c \<noteq> None then
        (case uniformVirtualizer c of
           Some u \<Rightarrow>
             Some (u_calc_range eng (uh_count u) (uh_size u) virtualScroll viewportSize ov,
                   uh_id u)
         | None \<Rightarrow> None)
      else
        (case virtualizer c of
           Some v \<Rightarrow> Some (v_calc_range eng (vh_sizes v) virtualScroll viewportSize ov, vh_id v)
         | None \<Rightarrow> None))"

text \<open>\<open>firstItemVirtualOffset\<close>, with the engine calls it makes.\<close>

definition firstItemVirtualOffset ::
  "engine \<Rightarrow> controller \<Rightarrow> int \<Rightarrow> real \<times> engine_op list" where
  "firstItemVirtualOffset eng c start =
     (if isUniform c then (real_of_int start * uniformSize c, [])
      else case virtualizer c of
             Some v \<Rightarrow> (v_get_offset eng (vh_sizes v) start, [GetOffset (vh_id v)])
           | None \<Rightarrow> (0, []))"

text \<open>
  The three arrays of \<open>visibleCount\<close> entries. When the controller is neither uniform nor
  holds a variable handle the source leaves the arrays unfilled; \<open>calculateRange\<close> has
  returned before that point, and the entries are written as zeros here.
\<close>

definition buildArrays ::
  "engine \<Rightarrow> controller \<Rightarrow> int \<Rightarrow> nat \<Rightarrow> real \<Rightarrow>
     (int list \<times> real list \<times> real list) \<times> engine_op list" where
  "buildArrays eng c start visibleCount first =
     (if isUniform c then
        ((map (\<lambda>i. start + int i) [0..<visibleCount],
          map (\<lambda>i. real i * uniformSize c) [0..<visibleCount],
          map (\<lambda>i. uniformSize c) [0..<visibleCount]), [])
      else case virtualizer c of
             Some v \<Rightarrow>
               ((map (\<lambda>i. start + int i) [0..<visibleCount],
                 map (\<lambda>i. v_get_offset eng (vh_sizes v) (start + int i) - first)
                   [0..<visibleCount],
                 map (\<lambda>i. v_get_size eng (vh_sizes v) (start + int i)) [0..<visibleCount]),
                concat (map (\<lambda>i. [GetOffset (vh_id v), GetSize (vh_id v)]) [0..<visibleCount]))
           | None \<Rightarrow>
               ((map (\<lambda>i. 0) [0..<visibleCount],
                 map (\<lambda>i. 0) [0..<visibleCount],
                 map (\<lambda>i. 0) [0..<visibleCount]), []))"

definition computeTotalHeight ::
  "engine \<Rightarrow> controller \<Rightarrow> nat \<Rightarrow> real \<times> engine_op list" where
  "computeTotalHeight eng c totalCount =
     (if isUniform c then (real totalCount * uniformSize c / scrollMultiplier c, [])
      else case virtualizer c of
             Some v \<Rightarrow>
               (v_get_offset eng (vh_sizes v) (int totalCount) / scrollMultiplier c,
                [GetOffset (vh_id v)])
           | None \<Rightarrow> (0, []))"

text \<open>
  The part of \<open>calculateRange\<close> after the skip test: record the accepted window, allocate
  the arrays (\<open>new Array(n)\<close> raises \<open>RangeError\<close> for a negative \<open>n\<close>), fill them and
  assign a new range object.
\<close>

definition publishRange ::
  "engine \<Rightarrow> int \<Rightarrow> int \<Rightarrow> real \<Rightarrow> real \<Rightarrow> world \<Rightarrow> outcome \<times> world" where
  "publishRange eng start end' first newPaddingTop w =
     (let c1 = (ctl w)\<lparr>lastStart := start, lastEnd := end', lastPaddingTop := newPaddingTop\<rparr>;
          visibleCount = end' - start
      in if visibleCount < 0 then (Threw RangeError, w\<lparr>ctl := c1\<rparr>)
         else
           let arrs = buildArrays eng c1 start (nat visibleCount) first;
               th = computeTotalHeight eng c1 (itemCount (args w));
               r = \<lparr>startIndex = start, endIndex = end',
                    items = fst (fst arrs), offsets = fst (snd (fst arrs)),
                    sizes = snd (snd (fst arrs)),
                    totalHeight = min (fst th) MAX_SAFE_SCROLL_HEIGHT,
                    paddingTop = newPaddingTop\<rparr>;
               ref = objCounter w + 1
           in (Published,
               (log_ops (snd arrs @ snd th) w)
                 \<lparr>ctl := c1\<lparr>rangeV := r, rangeRef := ref\<rparr>, objCounter := ref\<rparr>))"

text \<open>
  The values read from the arguments and the element: the overscan with its default, and
  the scroll position and viewport extent along the configured axis.
\<close>

definition overscanOf :: "Args \<Rightarrow> real" where
  "overscanOf a = (case overscan a of None \<Rightarrow> 3 | Some v \<Rightarrow> v)"

definition horizontalOf :: "Args \<Rightarrow> bool" where
  "horizontalOf a = (case horizontal a of None \<Rightarrow> False | Some b \<Rightarrow> b)"

definition scrollPosOf :: "Args \<Rightarrow> element \<Rightarrow> real" where
  "scrollPosOf a el = (if horizontalOf a then scrollLeft el else scrollTop el)"

definition viewportSizeOf :: "Args \<Rightarrow> element \<Rightarrow> real" where
  "viewportSizeOf a el = (if horizontalOf a then clientWidth el else clientHeight el)"

text \<open>
  From the range query to the skip test: the clamped \<open>start\<close> and \<open>end\<close>,
  \<open>firstItemVirtualOffset\<close>, \<open>newPaddingTop\<close>, and the engine calls made; \<open>None\<close>
  when no handle answers.
\<close>

definition window ::
  "engine \<Rightarrow> controller \<Rightarrow> Args \<Rightarrow> element \<Rightarrow>
     (int \<times> int \<times> real \<times> real \<times> engine_op list) option" where
  "window eng c a el =
     (let virtualScroll = scrollPosOf a el * scrollMultiplier c
      in case queryRange eng c virtualScroll (viewportSizeOf a el) (overscanOf a) of
           None \<Rightarrow> None
         | Some (info, h) \<Rightarrow>
             let start = max 0 (to_int32 (at_or_zero info 0));
                 end' = min (int (itemCount a)) (to_int32 (at_or_zero info 1));
                 fo = firstItemVirtualOffset eng c start;
                 newPaddingTop = fst fo / scrollMultiplier c
             in Some (start, end', fst fo, newPaddingTop, CalcRange h # snd fo))"

definition calculateRange :: "engine \<Rightarrow> world \<Rightarrow> outcome \<times> world" where
  "calculateRange eng w =
     (case elementV (ctl w) of
        None \<Rightarrow> (NoElement, w)
      | Some el \<Rightarrow>
          if viewportSizeOf (args w) el \<le> 0
          then (Rescheduled, snd (requestAnimationFrame Recalc w))
          else
            (case window eng (ctl w) (args w) el of
               None \<Rightarrow> (NoHandle, w)
             | Some (start, end', first, newPaddingTop, ops) \<Rightarrow>
                 if start = lastStart (ctl w) \<and> end' = lastEnd (ctl w)
                    \<and> abs (newPaddingTop - lastPaddingTop (ctl w)) < 0.5
                 then (Skipped, log_ops ops w)
                 else publishRange eng start end' first newPaddingTop (log_ops ops w)))"

subsection \<open>Creating handles (core/wasm.ts)\<close>

definition createUniformVirtualizer ::
  "nat \<Rightarrow> real \<Rightarrow> world \<Rightarrow> js_error + (QuantumUniform \<times> world)" where
  "createUniformVirtualizer n sz w =
     (case getWasmModule (gw w) of
        Inl e \<Rightarrow> Inl e
      | Inr _ \<Rightarrow>
          let h = handleCounter w
          in Inr (\<lparr>uh_id = h, uh_count = n, uh_size = sz\<rparr>,
                  (log_ops [Create h] w)\<lparr>handleCounter := h + 1\<rparr>))"

definition createVirtualizer ::
  "real list \<Rightarrow> world \<Rightarrow> js_error + (QuantumVariable \<times> world)" where
  "createVirtualizer szs w =
     (case getWasmModule (gw w) of
        Inl e \<Rightarrow> Inl e
      | Inr _ \<Rightarrow>
          let h = handleCounter w
          in Inr (\<lparr>vh_id = h, vh_sizes = szs\<rparr>,
                  (log_ops [Create h] w)\<lparr>handleCounter := h + 1\<rparr>))"

subsection \<open>setupVirtualizer\<close>

text \<open>
  The sampling loop \<open>for (i = 1; i < checkCount; i++)\<close> over the indices it visits:
  whether all samples equal the first one, and the indices the estimator was called with
  (the loop stops at the first sample that differs).
\<close>

fun check_uniform :: "(nat \<Rightarrow> real) \<Rightarrow> real \<Rightarrow> nat list \<Rightarrow> bool \<times> nat list" where
  "check_uniform est firstSize [] = (True, [])"
| "check_uniform est firstSize (i # rest) =
     (if est i \<noteq> firstSize then (False, [i])
      else (fst (check_uniform est firstSize rest),
            i # snd (check_uniform est firstSize rest)))"

text \<open>The \<open>if (virtualTotalHeight > MAX_SAFE_SCROLL_HEIGHT)\<close> statement.\<close>

definition multiplierFor :: "real \<Rightarrow> real" where
  "multiplierFor virtualTotalHeight =
     (if virtualTotalHeight > MAX_SAFE_SCROLL_HEIGHT
      then virtualTotalHeight / MAX_SAFE_SCROLL_HEIGHT else 1)"

text \<open>\<open>new Array(count)\<close> raises \<open>RangeError\<close> above \<open>2^32 - 1\<close>.\<close>

definition MAX_ARRAY_LENGTH :: nat where
  "MAX_ARRAY_LENGTH = 4294967295"

text \<open>The tail of \<open>setupVirtualizer\<close>, from the multiplier on.\<close>

definition finishSetup :: "real \<Rightarrow> world \<Rightarrow> world" where
  "finishSetup virtualTotalHeight w =
     snd (requestAnimationFrame SetupFrame
       (w\<lparr>ctl := (ctl w)\<lparr>scrollMultiplier := multiplierFor virtualTotalHeight,
                           isLoading := False\<rparr>\<rparr>))"

text \<open>
  \<open>setupVirtualizer\<close> returns the exception it raised, if any, with the state as it was
  left at that point.
\<close>

definition setupVirtualizer :: "world \<Rightarrow> js_error option \<times> world" where
  "setupVirtualizer w =
     (let n = itemCount (args w);
          est = estimateSize (args w);
          firstSize = est 0;
          checkCount = min 10 n;
          chk = check_uniform est firstSize [1..<checkCount];
          w1 = w\<lparr>estimateCalls := estimateCalls w @ 0 # snd chk,
                 ctl := (ctl w)\<lparr>isUniform := fst chk, uniformSize := firstSize\<rparr>\<rparr>
      in if fst chk then
           (case createUniformVirtualizer n firstSize w1 of
              Inl e \<Rightarrow> (Some e, w1)
            | Inr r \<Rightarrow>
                (None, finishSetup (real n * firstSize)
                   ((snd r)\<lparr>ctl := (ctl (snd r))\<lparr>uniformVirtualizer := Some (fst r)\<rparr>\<rparr>)))
         else if n > MAX_ARRAY_LENGTH then (Some RangeError, w1)
         else
           let szs = map est [0..<n];
               w2 = w1\<lparr>estimateCalls := estimateCalls w1 @ [0..<n]\<rparr>
           in case createVirtualizer szs w2 of
                Inl e \<Rightarrow> (Some e, w2)
              | Inr r \<Rightarrow>
                  (None, finishSetup (foldl (+) 0 szs)
                     ((snd r)\<lparr>ctl := (ctl (snd r))\<lparr>virtualizer := Some (fst r)\<rparr>\<rparr>)))"

subsection \<open>initialize\<close>

text \<open>
  The constructor starts \<open>initialize\<close>, which calls the gateway and suspends at its
  \<open>await\<close>.
\<close>

definition construct :: "Args \<Rightarrow> gateway \<Rightarrow> world" where
  "construct a g =
     \<lparr>ctl = new_controller, args = a, gw = snd (initializeWasm g),
      rafQueue = [], rafCounter = 0, engineLog = [], handleCounter = 0,
      objCounter = 0, estimateCalls = [], initAwaiting = True\<rparr>"

text \<open>The \<open>catch\<close> block of \<open>initialize\<close>.\<close>

definition initialize_catch :: "js_error \<Rightarrow> world \<Rightarrow> world" where
  "initialize_catch e w = w\<lparr>ctl := (ctl w)\<lparr>errorV := Some e, isLoading := False\<rparr>\<rparr>"

text \<open>\<open>initialize\<close> resumes after the gateway's promise was fulfilled.\<close>

definition initialize_resolved :: "world \<Rightarrow> world" where
  "initialize_resolved w =
     (if \<not> initAwaiting w then w
      else
        let r = setupVirtualizer (w\<lparr>initAwaiting := False, ctl := (ctl w)\<lparr>wasmReady := True\<rparr>\<rparr>)
        in case fst r of
             None \<Rightarrow> snd r
           | Some e \<Rightarrow> initialize_catch e (snd r))"

text \<open>\<open>initialize\<close> resumes after the gateway's promise was rejected.\<close>

definition initialize_rejected :: "js_error \<Rightarrow> world \<Rightarrow> world" where
  "initialize_rejected e w =
     (if \<not> initAwaiting w then w
      else initialize_catch e (w\<lparr>initAwaiting := False\<rparr>))"

subsection \<open>handleItemCountChange\<close>

text \<open>
  How a call ended: at the guard, at the final \<open>else return\<close>, by an exception of one
  of its own statements, or in the forced \<open>calculateRange\<close> (with the path that took).
\<close>

datatype count_change = NotReady | NoHandles | Raised js_error | Recomputed outcome

text \<open>The common tail: multiplier, invalidation of the accepted window, recomputation.\<close>

definition invalidateAndRecalc :: "engine \<Rightarrow> real \<Rightarrow> world \<Rightarrow> count_change \<times> world" where
  "invalidateAndRecalc eng virtualTotalHeight w =
     (let w1 = w\<lparr>ctl := (ctl w)\<lparr>scrollMultiplier := multiplierFor virtualTotalHeight,
                                lastStart := - 1, lastEnd := - 1\<rparr>\<rparr>
      in (Recomputed (fst (calculateRange eng w1)), snd (calculateRange eng w1)))"

definition handleItemCountChange :: "engine \<Rightarrow> world \<Rightarrow> count_change \<times> world" where
  "handleItemCountChange eng w =
     (if \<not> wasmReady (ctl w) \<or> isLoading (ctl w) then (NotReady, w)
      else
        let n = itemCount (args w)
        in if isUniform (ctl w) \<and> uniformVirtualizer (ctl w) \<noteq> None then
             (case uniformVirtualizer (ctl w) of
                None \<Rightarrow> (NoHandles, w)
              | Some u \<Rightarrow>
                  invalidateAndRecalc eng (real n * uniformSize (ctl w))
                    ((log_ops [SetCount (uh_id u)] w)
                       \<lparr>ctl := (ctl w)\<lparr>uniformVirtualizer := Some (u\<lparr>uh_count := n\<rparr>)\<rparr>\<rparr>))
           else
             (case virtualizer (ctl w) of
                None \<Rightarrow> (NoHandles, w)
              | Some v \<Rightarrow>
                  if n > MAX_ARRAY_LENGTH then (Raised RangeError, w)
                  else
                    let szs = map (estimateSize (args w)) [0..<n];
                        w1 = log_ops [Free (vh_id v)]
                               (w\<lparr>estimateCalls := estimateCalls w @ [0..<n]\<rparr>)
                    in (case createVirtualizer szs w1 of
                         Inl e \<Rightarrow> (Raised e, w1)
                       | Inr r \<Rightarrow>
                           invalidateAndRecalc eng (foldl (+) 0 szs)
                             ((snd r)\<lparr>ctl := (ctl (snd r))\<lparr>virtualizer := Some (fst r)\<rparr>\<rparr>))))"

subsection \<open>Scrolling, attaching, teardown\<close>

definition handleScroll :: "world \<Rightarrow> world" where
  "handleScroll w =
     (if rafPending (ctl w) then w
      else snd (requestAnimationFrame ScrollStage1
                  (w\<lparr>ctl := (ctl w)\<lparr>rafPending := True\<rparr>\<rparr>)))"

text \<open>The modifier \<open>scrollElementRef\<close>: its body and the cleanup it returns.\<close>

definition scrollElementRef :: "element \<Rightarrow> world \<Rightarrow> world" where
  "scrollElementRef el w =
     (if map_option el_id (elementV (ctl w)) \<noteq> Some (el_id el) then
        let w1 = w\<lparr>ctl := (ctl w)\<lparr>elementV := Some el\<rparr>\<rparr>
        in if \<not> isLoading (ctl w1) then snd (requestAnimationFrame Recalc w1) else w1
      else w)"

definition scrollElementRef_cleanup :: "world \<Rightarrow> world" where
  "scrollElementRef_cleanup w = w\<lparr>ctl := (ctl w)\<lparr>elementV := None\<rparr>\<rparr>"

text \<open>\<open>scrollToIndex\<close>: the position handed to \<open>el.scrollTo\<close>, if any.\<close>

definition scrollToIndex :: "engine \<Rightarrow> int \<Rightarrow> world \<Rightarrow> real option \<times> world" where
  "scrollToIndex eng index w =
     (case elementV (ctl w) of
        None \<Rightarrow> (None, w)
      | Some el \<Rightarrow>
          if isUniform (ctl w) then
            (Some (real_of_int index * uniformSize (ctl w) / scrollMultiplier (ctl w)), w)
          else (case virtualizer (ctl w) of
                 Some v \<Rightarrow>
                   (Some (v_get_offset eng (vh_sizes v) index / scrollMultiplier (ctl w)),
                    log_ops [GetOffset (vh_id v)] w)
               | None \<Rightarrow> (Some (0 / scrollMultiplier (ctl w)), w)))"

definition willDestroy :: "world \<Rightarrow> world" where
  "willDestroy w =
     (let w1 = (if rafId (ctl w) \<noteq> 0 then cancelAnimationFrame (rafId (ctl w)) w else w);
          w2 = (case virtualizer (ctl w1) of
                  Some v \<Rightarrow> log_ops [Free (vh_id v)] w1 | None \<Rightarrow> w1);
          w3 = (case uniformVirtualizer (ctl w2) of
                  Some u \<Rightarrow> log_ops [Free (uh_id u)] w2 | None \<Rightarrow> w2)
      in w3\<lparr>ctl := (ctl w3)\<lparr>virtualizer := None, uniformVirtualizer := None\<rparr>\<rparr>)"

subsection \<open>Animation-frame callbacks and events\<close>

fun run_callback :: "engine \<Rightarrow> callback \<Rightarrow> world \<Rightarrow> world" where
  "run_callback eng SetupFrame w =
     (if elementV (ctl w) \<noteq> None then snd (calculateRange eng w) else w)"
| "run_callback eng Recalc w = snd (calculateRange eng w)"
| "run_callback eng ScrollStage1 w =
     (let r = requestAnimationFrame ScrollStage2 w
      in (snd r)\<lparr>ctl := (ctl (snd r))\<lparr>rafId := fst r\<rparr>\<rparr>)"
| "run_callback eng ScrollStage2 w =
     snd (calculateRange eng (w\<lparr>ctl := (ctl w)\<lparr>rafPending := False\<rparr>\<rparr>))"

text \<open>
  What can happen to a constructed component: the gateway's promise settles, the modifier
  is installed on an element or cleaned up, the browser changes the attached element's
  scroll position or size, a scroll event reaches the listener, the argument
  \<open>itemCount\<close> changes (and the template's effect calls \<open>handleItemCountChange\<close>), the
  browser runs the oldest pending animation-frame callback, the consumer calls
  \<open>scrollToIndex\<close>, the component is destroyed.
\<close>

datatype event =
    InitResolved
  | InitRejected js_error
  | Install element
  | Cleanup
  | Browser real real real real
  | ScrollEvent
  | ArgsItemCount nat
  | Frame
  | ScrollTo int
  | Destroy

fun step :: "engine \<Rightarrow> event \<Rightarrow> world \<Rightarrow> world" where
  "step eng InitResolved w = initialize_resolved w"
| "step eng (InitRejected e) w = initialize_rejected e w"
| "step eng (Install el) w = scrollElementRef el w"
| "step eng Cleanup w = scrollElementRef_cleanup w"
| "step eng (Browser sl st cw ch) w =
     (case elementV (ctl w) of
        None \<Rightarrow> w
      | Some el \<Rightarrow>
          w\<lparr>ctl := (ctl w)\<lparr>elementV :=
               Some (el\<lparr>scrollLeft := sl, scrollTop := st,
                        clientWidth := cw, clientHeight := ch\<rparr>)\<rparr>\<rparr>)"
| "step eng ScrollEvent w = (if elementV (ctl w) = None then w else handleScroll w)"
| "step eng (ArgsItemCount n) w =
     snd (handleItemCountChange eng (w\<lparr>args := (args w)\<lparr>itemCount := n\<rparr>\<rparr>))"
| "step eng Frame w =
     (case rafQueue w of
        [] \<Rightarrow> w
      | (i, cb) # q \<Rightarrow> run_callback eng cb (w\<lparr>rafQueue := q\<rparr>))"
| "step eng (ScrollTo i) w = snd (scrollToIndex eng i w)"
| "step eng Destroy w = willDestroy w"


section \<open>Sample configurations\<close>

text \<open>
  A gateway after a successful load, a plain engine (uniform windows by division, clamped
  to the list; variable offsets by prefix sums), and a laid-out element; the concrete
  instances below are taken at these.
\<close>

definition ready_gateway :: gateway where
  "ready_gateway = init_settled None (import_settled None (snd (initializeWasm idle_gateway)))"

definition sample_engine :: engine where
  "sample_engine =
     \<lparr>u_calc_range = (\<lambda>n sz scroll viewport ov.
         [real_of_int (min (int n) (max 0 (\<lfloor>scroll / sz\<rfloor> - \<lfloor>ov\<rfloor>))),
          real_of_int (min (int n) (max 0 (\<lceil>(scroll + viewport) / sz\<rceil> + \<lfloor>ov\<rfloor>))),
          real n * sz, 0]),
      v_calc_range = (\<lambda>szs scroll viewport ov. [0, real (length szs)]),
      v_get_offset = (\<lambda>szs i. sum_list (take (nat i) szs)),
      v_get_size = (\<lambda>szs i. if 0 \<le> i \<and> nat i < length szs then szs ! nat i else 0)\<rparr>"

definition sample_args :: "nat \<Rightarrow> (nat \<Rightarrow> real) \<Rightarrow> Args" where
  "sample_args n est = \<lparr>itemCount = n, estimateSize = est, overscan = None, horizontal = None\<rparr>"

definition sample_element :: "real \<Rightarrow> real \<Rightarrow> element" where
  "sample_element st ch =
     \<lparr>el_id = 1, scrollLeft = 0, scrollTop = st, clientWidth = 300, clientHeight = ch\<rparr>"

text \<open>The state in which \<open>initialize\<close> calls \<open>setupVirtualizer\<close>.\<close>

definition loaded_world :: "nat \<Rightarrow> (nat \<Rightarrow> real) \<Rightarrow> world" where
  "loaded_world n est =
     (construct (sample_args n est) ready_gateway)
       \<lparr>initAwaiting := False, ctl := new_controller\<lparr>wasmReady := True\<rparr>\<rparr>"

text \<open>
  The state of a uniform list of \<open>n\<close> items of size \<open>c\<close> once \<open>initialize\<close> has
  finished and the modifier has been installed on \<open>el\<close>.
\<close>

definition uniform_world :: "nat \<Rightarrow> real \<Rightarrow> element \<Rightarrow> world" where
  "uniform_world n c el =
     \<lparr>ctl = new_controller
        \<lparr>isLoading := False, elementV := Some el,
         uniformVirtualizer := Some \<lparr>uh_id = 0, uh_count = n, uh_size = c\<rparr>,
         isUniform := True, uniformSize := c,
         scrollMultiplier := multiplierFor (real n * c), wasmReady := True\<rparr>,
      args = sample_args n (\<lambda>i. c), gw = ready_gateway,
      rafQueue = [(1, SetupFrame), (2, Recalc)], rafCounter = 2,
      engineLog = [Create 0], handleCounter = 1, objCounter = 0,
      estimateCalls = 0 # [1..<min 10 n], initAwaiting = False\<rparr>"

text \<open>The same list after the first animation frame, at the top of a viewport of 100.\<close>

definition settled_world :: world where
  "settled_world = step sample_engine Frame (uniform_world 1000 50 (sample_element 0 100))"

text \<open>The settled list at the moment its argument \<open>itemCount\<close> has become 2000.\<close>

definition grown_world :: world where
  "grown_world = settled_world\<lparr>args := (args settled_world)\<lparr>itemCount := 2000\<rparr>\<rparr>"

section \<open>Reference notions used in the statements\<close>

text \<open>
  The virtual total height in the specification's words: \<open>count * firstSize\<close> on the
  uniform path, the sum of all sizes on the variable path.
\<close>

definition virtualTotalHeight :: "controller \<Rightarrow> Args \<Rightarrow> real" where
  "virtualTotalHeight c a =
     (if isUniform c then real (itemCount a) * uniformSize c
      else sum_list (map (estimateSize a) [0..<itemCount a]))"

text \<open>The invariant of a published range, for a list of \<open>n\<close> items.\<close>

definition range_ok :: "nat \<Rightarrow> VirtualRange \<Rightarrow> bool" where
  "range_ok n r =
     (0 \<le> startIndex r \<and> startIndex r \<le> endIndex r \<and> endIndex r \<le> int n
      \<and> int (length (items r)) = endIndex r - startIndex r
      \<and> int (length (offsets r)) = endIndex r - startIndex r
      \<and> int (length (sizes r)) = endIndex r - startIndex r)"

text \<open>
  The ranges published while a sequence of events is processed, each with the item count
  at the time: an event publishes exactly when it allocates a range object.
\<close>

fun publications :: "engine \<Rightarrow> event list \<Rightarrow> world \<Rightarrow> (nat \<times> VirtualRange) list" where
  "publications eng [] w = []"
| "publications eng (e # es) w =
     (if objCounter (step eng e w) \<noteq> objCounter w
      then [(itemCount (args (step eng e w)), rangeV (ctl (step eng e w)))] else [])
     @ publications eng es (step eng e w)"

text \<open>
  A uniform controller of item size \<open>c\<close> that has finished loading: it holds no variable
  handle, and while it holds its uniform handle the multiplier is the one of the current
  count.
\<close>

definition uniform_ready :: "real \<Rightarrow> world \<Rightarrow> bool" where
  "uniform_ready c w =
     (isUniform (ctl w) \<and> uniformSize (ctl w) = c \<and> wasmReady (ctl w)
      \<and> \<not> isLoading (ctl w) \<and> \<not> initAwaiting w \<and> virtualizer (ctl w) = None
      \<and> (uniformVirtualizer (ctl w) = None
          \<or> scrollMultiplier (ctl w) = multiplierFor (real (itemCount (args w)) * c)))"

text \<open>
  The gateway's marker is set exactly while the asynchronous body is suspended, which is
  exactly while the status is \<open>Initializing\<close>; the marker is a promise already made.
\<close>

definition gw_inv :: "gateway \<Rightarrow> bool" where
  "gw_inv g =
     ((initializationPromise g = None \<longleftrightarrow> body g = NotRunning)
      \<and> (wasmStatus g = Initializing \<longleftrightarrow> body g \<noteq> NotRunning)
      \<and> (\<forall>p. initializationPromise g = Some p \<longrightarrow> p < promiseCounter g))"

text \<open>
  The discipline of the engine log (newest call first): a handle is created once, and
  every other call on it comes after its creation and not after its release.
\<close>

fun is_create :: "engine_op \<Rightarrow> bool" where
  "is_create (Create h) = True"
| "is_create _ = False"


definition free_count :: "nat \<Rightarrow> engine_op list \<Rightarrow> nat" where
  "free_count h lg = length (filter (\<lambda>x. x = Free h) lg)"

fun is_free :: "engine_op \<Rightarrow> bool" where
  "is_free (Free h) = True"
| "is_free _ = False"

text \<open>The handle \<open>h\<close> is referenced by one of the two handle fields.\<close>

definition held_in :: "nat \<Rightarrow> controller \<Rightarrow> bool" where
  "held_in h c =
     (map_option vh_id (virtualizer c) = Some h
      \<or> map_option uh_id (uniformVirtualizer c) = Some h)"


text \<open>Calls that neither create nor release, all on handles the controller holds.\<close>

definition uses_of :: "controller \<Rightarrow> engine_op list \<Rightarrow> bool" where
  "uses_of c ops = (\<forall>x \<in> set ops. \<not> is_create x \<and> \<not> is_free x \<and> held_in (handle_of x) c)"






section \<open>Properties\<close>

subsection \<open>Auxiliary facts\<close>

lemma log_ops_fields [simp]:
  "ctl (log_ops ops w) = ctl w"
  "args (log_ops ops w) = args w"
  "gw (log_ops ops w) = gw w"
  "rafQueue (log_ops ops w) = rafQueue w"
  "rafCounter (log_ops ops w) = rafCounter w"
  "objCounter (log_ops ops w) = objCounter w"
  "handleCounter (log_ops ops w) = handleCounter w"
  "estimateCalls (log_ops ops w) = estimateCalls w"
  "initAwaiting (log_ops ops w) = initAwaiting w"
  "engineLog (log_ops ops w) = rev ops @ engineLog w"
  by (simp_all add: log_ops_def)

lemma check_uniform_fst: "fst (check_uniform est c xs) = (\<forall>i\<in>set xs. est i = c)"
  by (induction xs) auto

lemma check_uniform_all_equal:
  "\<forall>i\<in>set xs. est i = c \<Longrightarrow> check_uniform est c xs = (True, xs)"
  by (induction xs) auto

lemma ready_gateway_eq:
  "ready_gateway =
     \<lparr>wasmModule = True, wasmStatus = Ready, wasmError = None,
      initializationPromise = None, body = NotRunning, promiseCounter = 1,
      loadsStarted = 1\<rparr>"
  by (simp add: ready_gateway_def init_settled_def import_settled_def initializeWasm_def
      idle_gateway_def setStatus_def)

lemma ready_gateway_ok [simp]:
  "getWasmModule ready_gateway = Inr ()"
  "initializeWasm ready_gateway = (Resolved, ready_gateway)"
  by (simp_all add: ready_gateway_eq getWasmModule_def initializeWasm_def)


lemmas sample_eval =
  uniform_world_def window_def queryRange_def sample_engine_def Let_def new_controller_def
  sample_args_def sample_element_def scrollPosOf_def viewportSizeOf_def overscanOf_def
  horizontalOf_def multiplierFor_def MAX_SAFE_SCROLL_HEIGHT_def to_int32_def trunc_zero_def
  at_or_zero_def firstItemVirtualOffset_def

lemma settled_world_eq:
  "settled_world =
     \<lparr>ctl =
        \<lparr>isLoading = False, errorV = None,
         rangeV = \<lparr>startIndex = 0, endIndex = 5, items = [0, 1, 2, 3, 4],
                   offsets = [0, 50, 100, 150, 200], sizes = [50, 50, 50, 50, 50],
                   totalHeight = 50000, paddingTop = 0\<rparr>,
         rangeRef = 1, elementV = Some (sample_element 0 100), virtualizer = None,
         uniformVirtualizer = Some \<lparr>uh_id = 0, uh_count = 1000, uh_size = 50\<rparr>,
         isUniform = True, uniformSize = 50, scrollMultiplier = 1,
         lastStart = 0, lastEnd = 5, lastPaddingTop = 0, rafId = 0, rafPending = False,
         wasmReady = True\<rparr>,
      args = sample_args 1000 (\<lambda>i. 50), gw = ready_gateway,
      rafQueue = [(2, Recalc)], rafCounter = 2,
      engineLog = [CalcRange 0, Create 0], handleCounter = 1, objCounter = 1,
      estimateCalls = 0 # [1..<min 10 1000], initAwaiting = False\<rparr>"
  by (simp add: settled_world_def calculateRange_def sample_eval publishRange_def
      buildArrays_def computeTotalHeight_def log_ops_def upt_conv_Cons)

lemma settled_world_ctl:
  "ctl settled_world =
     \<lparr>isLoading = False, errorV = None,
      rangeV = \<lparr>startIndex = 0, endIndex = 5, items = [0, 1, 2, 3, 4],
                offsets = [0, 50, 100, 150, 200], sizes = [50, 50, 50, 50, 50],
                totalHeight = 50000, paddingTop = 0\<rparr>,
      rangeRef = 1, elementV = Some (sample_element 0 100), virtualizer = None,
      uniformVirtualizer = Some \<lparr>uh_id = 0, uh_count = 1000, uh_size = 50\<rparr>,
      isUniform = True, uniformSize = 50, scrollMultiplier = 1,
      lastStart = 0, lastEnd = 5, lastPaddingTop = 0, rafId = 0, rafPending = False,
      wasmReady = True\<rparr>"
  by (simp add: settled_world_eq)

lemma settled_world_rest:
  "args settled_world = sample_args 1000 (\<lambda>i. 50)"
  "objCounter settled_world = 1"
  "rafQueue settled_world = [(2, Recalc)]"
  "engineLog settled_world = [CalcRange 0, Create 0]"
  by (simp_all add: settled_world_eq)

lemma window_ignores_accepted [simp]:
  "window eng (c\<lparr>lastStart := a, lastEnd := b, lastPaddingTop := p\<rparr>) ar el = window eng c ar el"
  by (simp add: window_def queryRange_def firstItemVirtualOffset_def Let_def
      split: option.splits)

lemma window_ignores_range [simp]:
  "window eng (c\<lparr>rangeV := r, rangeRef := k\<rparr>) ar el = window eng c ar el"
  by (simp add: window_def queryRange_def firstItemVirtualOffset_def Let_def
      split: option.splits)

lemma publishRange_ctl:
  "\<exists>r k. ctl (snd (publishRange eng s e f p w)) =
     (ctl w)\<lparr>lastStart := s, lastEnd := e, lastPaddingTop := p, rangeV := r, rangeRef := k\<rparr>"
proof (cases "e - s < 0")
  case True
  have "ctl (snd (publishRange eng s e f p w)) =
     (ctl w)\<lparr>lastStart := s, lastEnd := e, lastPaddingTop := p,
             rangeV := rangeV (ctl w), rangeRef := rangeRef (ctl w)\<rparr>"
    using True by (simp add: publishRange_def Let_def)
  then show ?thesis by blast
next
  case False
  then show ?thesis
    by (simp add: publishRange_def Let_def) blast
qed

lemma publishRange_args [simp]: "args (snd (publishRange eng s e f p w)) = args w"
  by (simp add: publishRange_def Let_def)

lemma calculateRange_args [simp]: "args (snd (calculateRange eng w)) = args w"
  by (simp add: calculateRange_def requestAnimationFrame_def Let_def
      split: option.splits prod.splits)

text \<open>A recomputation right after another one takes no publishing path.\<close>

lemma calculateRange_twice:
  "fst (calculateRange eng (snd (calculateRange eng w))) \<notin> {Published, Threw RangeError}
   \<and> ctl (snd (calculateRange eng (snd (calculateRange eng w)))) = ctl (snd (calculateRange eng w))
   \<and> objCounter (snd (calculateRange eng (snd (calculateRange eng w))))
       = objCounter (snd (calculateRange eng w))"
proof (cases "elementV (ctl w)")
  case None
  then show ?thesis by (simp add: calculateRange_def)
next
  case (Some el)
  note el = this
  show ?thesis
  proof (cases "viewportSizeOf (args w) el \<le> 0")
    case True
    then show ?thesis using el
      by (simp add: calculateRange_def requestAnimationFrame_def Let_def)
  next
    case False
    note vp = this
    show ?thesis
    proof (cases "window eng (ctl w) (args w) el")
      case None
      then show ?thesis using el vp by (simp add: calculateRange_def)
    next
      case (Some t)
      obtain s e f p os where t: "t = (s, e, f, p, os)" by (cases t) auto
      note win = Some [unfolded t]
      show ?thesis
      proof (cases "s = lastStart (ctl w) \<and> e = lastEnd (ctl w)
                     \<and> abs (p - lastPaddingTop (ctl w)) < 0.5")
        case True
        then show ?thesis using win vp el
          by (simp add: calculateRange_def)
      next
        case False
        then have c1: "calculateRange eng w = publishRange eng s e f p (log_ops os w)"
          using win vp el by (auto simp add: calculateRange_def)
        obtain r k where c: "ctl (snd (publishRange eng s e f p (log_ops os w))) =
            (ctl (log_ops os w))\<lparr>lastStart := s, lastEnd := e, lastPaddingTop := p,
                                 rangeV := r, rangeRef := k\<rparr>"
          using publishRange_ctl by blast
        let ?w1 = "snd (publishRange eng s e f p (log_ops os w))"
        have e1: "elementV (ctl ?w1) = Some el" using c el by simp
        have a1: "args ?w1 = args w" by simp
        have w1: "window eng (ctl ?w1) (args ?w1) el = Some (s, e, f, p, os)"
          using win by (simp add: c)
        have l1: "lastStart (ctl ?w1) = s \<and> lastEnd (ctl ?w1) = e \<and> lastPaddingTop (ctl ?w1) = p"
          by (simp add: c)
        have "calculateRange eng ?w1 = (Skipped, log_ops os ?w1)"
          using e1 vp w1 l1 by (simp add: calculateRange_def)
        then show ?thesis by (simp add: c1)
      qed
    qed
  qed
qed

lemma setupVirtualizer_calls:
  "\<exists>rest. estimateCalls (snd (setupVirtualizer w)) = estimateCalls w @ 0 # rest"
  by (simp add: setupVirtualizer_def Let_def createUniformVirtualizer_def createVirtualizer_def
      finishSetup_def requestAnimationFrame_def split: sum.splits prod.splits)


lemma calculateRange_paths:
  "calculateRange eng w = (NoElement, w)
   \<or> calculateRange eng w = (Rescheduled, snd (requestAnimationFrame Recalc w))
   \<or> calculateRange eng w = (NoHandle, w)
   \<or> (\<exists>os. calculateRange eng w = (Skipped, log_ops os w))
   \<or> (\<exists>s e f p os. calculateRange eng w = publishRange eng s e f p (log_ops os w))"
  by (simp add: calculateRange_def split: option.splits prod.splits) blast

lemma calculateRange_ctl:
  "\<exists>s e p r k. ctl (snd (calculateRange eng w)) =
     (ctl w)\<lparr>lastStart := s, lastEnd := e, lastPaddingTop := p, rangeV := r, rangeRef := k\<rparr>"
proof -
  have triv: "ctl w = (ctl w)\<lparr>lastStart := lastStart (ctl w), lastEnd := lastEnd (ctl w),
      lastPaddingTop := lastPaddingTop (ctl w), rangeV := rangeV (ctl w),
      rangeRef := rangeRef (ctl w)\<rparr>"
    by simp
  consider (same) "ctl (snd (calculateRange eng w)) = ctl w"
    | (pub) s e f p os where "calculateRange eng w = publishRange eng s e f p (log_ops os w)"
    using calculateRange_paths [of eng w]
    by (auto simp add: requestAnimationFrame_def Let_def)
  then show ?thesis
  proof cases
    case same
    then show ?thesis using triv by metis
  next
    case pub
    then show ?thesis using publishRange_ctl [of eng s e f p "log_ops os w"] by simp blast
  qed
qed

lemma calculateRange_keeps [simp]:
  "scrollMultiplier (ctl (snd (calculateRange eng w))) = scrollMultiplier (ctl w)"
  "isUniform (ctl (snd (calculateRange eng w))) = isUniform (ctl w)"
  "uniformSize (ctl (snd (calculateRange eng w))) = uniformSize (ctl w)"
  "virtualizer (ctl (snd (calculateRange eng w))) = virtualizer (ctl w)"
  "uniformVirtualizer (ctl (snd (calculateRange eng w))) = uniformVirtualizer (ctl w)"
  "elementV (ctl (snd (calculateRange eng w))) = elementV (ctl w)"
  "isLoading (ctl (snd (calculateRange eng w))) = isLoading (ctl w)"
  "wasmReady (ctl (snd (calculateRange eng w))) = wasmReady (ctl w)"
  "errorV (ctl (snd (calculateRange eng w))) = errorV (ctl w)"
  "rafId (ctl (snd (calculateRange eng w))) = rafId (ctl w)"
  "rafPending (ctl (snd (calculateRange eng w))) = rafPending (ctl w)"
proof -
  obtain s e p r k where "ctl (snd (calculateRange eng w)) =
     (ctl w)\<lparr>lastStart := s, lastEnd := e, lastPaddingTop := p, rangeV := r, rangeRef := k\<rparr>"
    using calculateRange_ctl by blast
  then show
  "scrollMultiplier (ctl (snd (calculateRange eng w))) = scrollMultiplier (ctl w)"
  "isUniform (ctl (snd (calculateRange eng w))) = isUniform (ctl w)"
  "uniformSize (ctl (snd (calculateRange eng w))) = uniformSize (ctl w)"
  "virtualizer (ctl (snd (calculateRange eng w))) = virtualizer (ctl w)"
  "uniformVirtualizer (ctl (snd (calculateRange eng w))) = uniformVirtualizer (ctl w)"
  "elementV (ctl (snd (calculateRange eng w))) = elementV (ctl w)"
  "isLoading (ctl (snd (calculateRange eng w))) = isLoading (ctl w)"
  "wasmReady (ctl (snd (calculateRange eng w))) = wasmReady (ctl w)"
  "errorV (ctl (snd (calculateRange eng w))) = errorV (ctl w)"
  "rafId (ctl (snd (calculateRange eng w))) = rafId (ctl w)"
  "rafPending (ctl (snd (calculateRange eng w))) = rafPending (ctl w)"
    by simp_all
qed




lemma window_bounds:
  "window eng c a el = Some (s, e, f, p, os) \<Longrightarrow> 0 \<le> s \<and> e \<le> int (itemCount a)"
  by (auto simp add: window_def Let_def split: option.splits prod.splits)

lemma buildArrays_lengths:
  "length (fst (fst (buildArrays eng c s n f))) = n
   \<and> length (fst (snd (fst (buildArrays eng c s n f)))) = n
   \<and> length (snd (snd (fst (buildArrays eng c s n f)))) = n"
  by (simp add: buildArrays_def split: option.splits)

lemma computeTotalHeight_ignores [simp]:
  "computeTotalHeight eng (c\<lparr>lastStart := a, lastEnd := b, lastPaddingTop := p\<rparr>) n
     = computeTotalHeight eng c n"
  by (simp add: computeTotalHeight_def split: option.splits)

lemma publishRange_Published:
  assumes "s \<le> e"
  shows "fst (publishRange eng s e f p w) = Published"
    and "objCounter (snd (publishRange eng s e f p w)) = objCounter w + 1"
    and "rangeRef (ctl (snd (publishRange eng s e f p w))) = objCounter w + 1"
    and "startIndex (rangeV (ctl (snd (publishRange eng s e f p w)))) = s"
    and "endIndex (rangeV (ctl (snd (publishRange eng s e f p w)))) = e"
    and "paddingTop (rangeV (ctl (snd (publishRange eng s e f p w)))) = p"
    and "totalHeight (rangeV (ctl (snd (publishRange eng s e f p w))))
           = min (fst (computeTotalHeight eng (ctl w) (itemCount (args w)))) MAX_SAFE_SCROLL_HEIGHT"
    and "int (length (items (rangeV (ctl (snd (publishRange eng s e f p w)))))) = e - s"
    and "int (length (offsets (rangeV (ctl (snd (publishRange eng s e f p w)))))) = e - s"
    and "int (length (sizes (rangeV (ctl (snd (publishRange eng s e f p w)))))) = e - s"
  using assms by (simp_all add: publishRange_def Let_def buildArrays_lengths)

lemma publishRange_Threw:
  assumes "e < s"
  shows "publishRange eng s e f p w =
     (Threw RangeError, w\<lparr>ctl := (ctl w)\<lparr>lastStart := s, lastEnd := e, lastPaddingTop := p\<rparr>\<rparr>)"
  using assms by (simp add: publishRange_def Let_def)

text \<open>What a recomputation that allocates a range object has done.\<close>

lemma calculateRange_publishes:
  assumes "objCounter (snd (calculateRange eng w)) \<noteq> objCounter w
           \<or> fst (calculateRange eng w) = Published"
  shows "\<exists>el s e f p os.
           elementV (ctl w) = Some el \<and> 0 < viewportSizeOf (args w) el
         \<and> window eng (ctl w) (args w) el = Some (s, e, f, p, os) \<and> s \<le> e
         \<and> calculateRange eng w = publishRange eng s e f p (log_ops os w)"
proof (cases "elementV (ctl w)")
  case None
  then show ?thesis using assms by (simp add: calculateRange_def)
next
  case (Some el)
  note el = this
  show ?thesis
  proof (cases "viewportSizeOf (args w) el \<le> 0")
    case True
    then show ?thesis using el assms
      by (simp add: calculateRange_def requestAnimationFrame_def Let_def)
  next
    case False
    note vp = this
    show ?thesis
    proof (cases "window eng (ctl w) (args w) el")
      case None
      then show ?thesis using el vp assms by (simp add: calculateRange_def)
    next
      case (Some t)
      obtain s e f p os where t: "t = (s, e, f, p, os)" by (cases t) auto
      note win = Some [unfolded t]
      show ?thesis
      proof (cases "s = lastStart (ctl w) \<and> e = lastEnd (ctl w)
                     \<and> abs (p - lastPaddingTop (ctl w)) < 0.5")
        case True
        then show ?thesis using win vp el assms by (simp add: calculateRange_def)
      next
        case False
        then have c1: "calculateRange eng w = publishRange eng s e f p (log_ops os w)"
          using win vp el by (auto simp add: calculateRange_def)
        have "s \<le> e"
        proof (rule ccontr)
          assume "\<not> s \<le> e"
          then have "e < s" by simp
          from publishRange_Threw [OF this, of eng f p "log_ops os w"] c1 assms
          show False by simp
        qed
        then show ?thesis using c1 win vp el by auto
      qed
    qed
  qed
qed

lemma calculateRange_objCounter:
  "objCounter (snd (calculateRange eng w)) =
     (if fst (calculateRange eng w) = Published then objCounter w + 1 else objCounter w)"
proof (cases "fst (calculateRange eng w) = Published")
  case True
  then obtain el s e f p os where "s \<le> e"
    "calculateRange eng w = publishRange eng s e f p (log_ops os w)"
    using calculateRange_publishes [of eng w] by blast
  then show ?thesis using True publishRange_Published(2) [of s e eng f p "log_ops os w"] by simp
next
  case False
  have "objCounter (snd (calculateRange eng w)) = objCounter w"
  proof (rule ccontr)
    assume "objCounter (snd (calculateRange eng w)) \<noteq> objCounter w"
    then obtain el s e f p os where "s \<le> e"
      "calculateRange eng w = publishRange eng s e f p (log_ops os w)"
      using calculateRange_publishes [of eng w] by blast
    then show False using False publishRange_Published(1) [of s e eng f p "log_ops os w"]
      by simp
  qed
  then show ?thesis using False by simp
qed

lemma calculateRange_range_ok:
  assumes "objCounter (snd (calculateRange eng w)) \<noteq> objCounter w"
  shows "range_ok (itemCount (args w)) (rangeV (ctl (snd (calculateRange eng w))))"
proof -
  obtain el s e f p os where w: "window eng (ctl w) (args w) el = Some (s, e, f, p, os)"
    and se: "s \<le> e"
    and c: "calculateRange eng w = publishRange eng s e f p (log_ops os w)"
    using calculateRange_publishes [of eng w] assms by blast
  from window_bounds [OF w] have b: "0 \<le> s" "e \<le> int (itemCount (args w))" by auto
  show ?thesis
    using publishRange_Published [OF se, of eng f p "log_ops os w"] b se
    by (simp add: c range_ok_def)
qed

lemma setupVirtualizer_objCounter [simp]:
  "objCounter (snd (setupVirtualizer w)) = objCounter w"
  by (simp add: setupVirtualizer_def Let_def createUniformVirtualizer_def createVirtualizer_def
      finishSetup_def requestAnimationFrame_def split: sum.splits prod.splits)

lemma initialize_resolved_objCounter [simp]:
  "objCounter (initialize_resolved w) = objCounter w"
  by (simp add: initialize_resolved_def initialize_catch_def Let_def split: option.splits)

lemma willDestroy_objCounter [simp]: "objCounter (willDestroy w) = objCounter w"
  by (simp add: willDestroy_def cancelAnimationFrame_def Let_def split: option.splits)

lemma step_publication:
  assumes "objCounter (step eng e w) \<noteq> objCounter w"
  shows "\<exists>w0. step eng e w = snd (calculateRange eng w0) \<and> objCounter w0 = objCounter w"
proof (cases e)
  case InitResolved
  then show ?thesis using assms by simp
next
  case (InitRejected x)
  then show ?thesis using assms
    by (simp add: initialize_rejected_def initialize_catch_def split: if_splits)
next
  case (Install el)
  then show ?thesis using assms
    by (simp add: scrollElementRef_def requestAnimationFrame_def Let_def split: if_splits)
next
  case Cleanup
  then show ?thesis using assms by (simp add: scrollElementRef_cleanup_def)
next
  case (Browser a b c d)
  then show ?thesis using assms by (simp split: option.splits)
next
  case ScrollEvent
  then show ?thesis using assms
    by (simp add: handleScroll_def requestAnimationFrame_def Let_def split: if_splits)
next
  case (ArgsItemCount n)
  then show ?thesis using assms
    by (auto simp add: handleItemCountChange_def invalidateAndRecalc_def Let_def
        createVirtualizer_def split: if_splits option.splits sum.splits)
next
  case Frame
  show ?thesis
  proof (cases "rafQueue w")
    case Nil
    then show ?thesis using assms Frame by simp
  next
    case (Cons a q)
    obtain i cb where a: "a = (i, cb)" by (cases a) auto
    show ?thesis
    proof (cases cb)
      case SetupFrame
      then show ?thesis using assms Frame Cons a
        apply (simp split: if_splits)
        apply (rule exI, rule conjI, rule refl, simp)+
        done
    next
      case Recalc
      then show ?thesis using assms Frame Cons a
        apply simp
        apply (rule exI, rule conjI, rule refl, simp)+
        done
    next
      case ScrollStage1
      then show ?thesis using assms Frame Cons a
        by (simp add: requestAnimationFrame_def Let_def)
    next
      case ScrollStage2
      then show ?thesis using assms Frame Cons a
        apply simp
        apply (rule exI, rule conjI, rule refl, simp)+
        done
    qed
  qed
next
  case (ScrollTo i)
  then show ?thesis using assms
    by (simp add: scrollToIndex_def split: option.splits if_splits)
next
  case Destroy
  then show ?thesis using assms by simp
qed

lemma publishRange_misc [simp]:
  "initAwaiting (snd (publishRange eng s e f p w)) = initAwaiting w"
  "gw (snd (publishRange eng s e f p w)) = gw w"
  "handleCounter (snd (publishRange eng s e f p w)) = handleCounter w"
  "estimateCalls (snd (publishRange eng s e f p w)) = estimateCalls w"
  "rafQueue (snd (publishRange eng s e f p w)) = rafQueue w"
  "rafCounter (snd (publishRange eng s e f p w)) = rafCounter w"
  by (simp_all add: publishRange_def Let_def)

lemma calculateRange_misc [simp]:
  "initAwaiting (snd (calculateRange eng w)) = initAwaiting w"
  "gw (snd (calculateRange eng w)) = gw w"
  "handleCounter (snd (calculateRange eng w)) = handleCounter w"
  "estimateCalls (snd (calculateRange eng w)) = estimateCalls w"
  using calculateRange_paths [of eng w]
  by (auto simp add: requestAnimationFrame_def Let_def)

text \<open>Every range published along a run satisfies the invariant for the count of its time.\<close>

lemma publications_range_ok:
  "(n, r) \<in> set (publications eng evs w) \<Longrightarrow> range_ok n r"
proof (induction evs arbitrary: w)
  case Nil
  then show ?case by simp
next
  case (Cons e evs)
  show ?case
  proof (cases "(n, r) \<in> set (publications eng evs (step eng e w))")
    case True
    then show ?thesis using Cons.IH by blast
  next
    case False
    then have ch: "objCounter (step eng e w) \<noteq> objCounter w"
      and nr: "n = itemCount (args (step eng e w))" "r = rangeV (ctl (step eng e w))"
      using Cons.prems by (auto split: if_splits)
    obtain w0 where w0: "step eng e w = snd (calculateRange eng w0)"
      "objCounter w0 = objCounter w"
      using step_publication [OF ch] by blast
    then have "objCounter (snd (calculateRange eng w0)) \<noteq> objCounter w0" using ch by simp
    from calculateRange_range_ok [OF this] show ?thesis using nr w0 by simp
  qed
qed

lemma uniform_ready_step: "uniform_ready c w \<Longrightarrow> uniform_ready c (step eng e w)"
proof (cases e)
  case InitResolved
  assume "uniform_ready c w"
  then show ?thesis using InitResolved by (simp add: uniform_ready_def initialize_resolved_def)
next
  case (InitRejected x)
  assume "uniform_ready c w"
  then show ?thesis using InitRejected by (simp add: uniform_ready_def initialize_rejected_def)
next
  case (Install el)
  assume "uniform_ready c w"
  then show ?thesis using Install
    by (simp add: uniform_ready_def scrollElementRef_def requestAnimationFrame_def Let_def)
next
  case Cleanup
  assume "uniform_ready c w"
  then show ?thesis using Cleanup by (simp add: uniform_ready_def scrollElementRef_cleanup_def)
next
  case (Browser sl st cw ch)
  assume "uniform_ready c w"
  then show ?thesis using Browser by (simp add: uniform_ready_def split: option.splits)
next
  case ScrollEvent
  assume "uniform_ready c w"
  then show ?thesis using ScrollEvent
    by (simp add: uniform_ready_def handleScroll_def requestAnimationFrame_def Let_def)
next
  case (ArgsItemCount n)
  assume "uniform_ready c w"
  then show ?thesis using ArgsItemCount
    by (auto simp add: uniform_ready_def handleItemCountChange_def invalidateAndRecalc_def Let_def
        split: option.splits)
next
  case Frame
  assume u: "uniform_ready c w"
  show ?thesis
  proof (cases "rafQueue w")
    case Nil
    then show ?thesis using u Frame by simp
  next
    case (Cons a q)
    obtain i cb where a: "a = (i, cb)" by (cases a) auto
    show ?thesis using u Frame Cons a
      by (cases cb) (simp_all add: uniform_ready_def requestAnimationFrame_def Let_def)
  qed
next
  case (ScrollTo i)
  assume "uniform_ready c w"
  then show ?thesis using ScrollTo
    by (simp add: uniform_ready_def scrollToIndex_def split: option.splits)
next
  case Destroy
  assume "uniform_ready c w"
  then show ?thesis using Destroy
    by (simp add: uniform_ready_def willDestroy_def cancelAnimationFrame_def Let_def
        split: option.splits)
qed

lemma uniform_ready_back:
  "uniform_ready c (snd (calculateRange eng w)) \<Longrightarrow> uniform_ready c w"
  by (simp add: uniform_ready_def)

lemma window_handle:
  "window eng c a el = Some t \<Longrightarrow> isUniform c \<Longrightarrow> virtualizer c = None
   \<Longrightarrow> uniformVirtualizer c \<noteq> None"
  by (auto simp add: window_def queryRange_def Let_def split: option.splits if_splits)

lemma uniform_ready_publish:
  assumes u: "uniform_ready c w"
    and p: "objCounter (snd (calculateRange eng w)) \<noteq> objCounter w"
  shows "totalHeight (rangeV (ctl (snd (calculateRange eng w)))) =
           min (real (itemCount (args w)) * c / multiplierFor (real (itemCount (args w)) * c))
               MAX_SAFE_SCROLL_HEIGHT"
proof -
  obtain el s e f p os where w: "window eng (ctl w) (args w) el = Some (s, e, f, p, os)"
    and se: "s \<le> e"
    and c: "calculateRange eng w = publishRange eng s e f p (log_ops os w)"
    using calculateRange_publishes [of eng w] p by blast
  have "uniformVirtualizer (ctl w) \<noteq> None"
    using window_handle [OF w] u by (simp add: uniform_ready_def)
  then have m: "scrollMultiplier (ctl w) = multiplierFor (real (itemCount (args w)) * c)"
    using u by (auto simp add: uniform_ready_def)
  have "fst (computeTotalHeight eng (ctl w) (itemCount (args w)))
          = real (itemCount (args w)) * c / scrollMultiplier (ctl w)"
    using u by (simp add: computeTotalHeight_def uniform_ready_def)
  then show ?thesis
    using publishRange_Published(7) [OF se, of eng f p "log_ops os w"] m by (simp add: c)
qed

lemma uniform_ready_publications:
  "uniform_ready c w \<Longrightarrow> (m, r) \<in> set (publications eng evs w) \<Longrightarrow>
   real m * c \<le> 15000000 \<Longrightarrow> totalHeight r = real m * c"
proof (induction evs arbitrary: w)
  case Nil
  then show ?case by simp
next
  case (Cons e evs)
  have u': "uniform_ready c (step eng e w)" using Cons.prems(1) by (rule uniform_ready_step)
  show ?case
  proof (cases "(m, r) \<in> set (publications eng evs (step eng e w))")
    case True
    then show ?thesis using Cons.IH [OF u'] Cons.prems(3) by blast
  next
    case False
    then have ch: "objCounter (step eng e w) \<noteq> objCounter w"
      and nr: "m = itemCount (args (step eng e w))" "r = rangeV (ctl (step eng e w))"
      using Cons.prems by (auto split: if_splits)
    obtain w0 where w0: "step eng e w = snd (calculateRange eng w0)"
      "objCounter w0 = objCounter w"
      using step_publication [OF ch] by blast
    have u0: "uniform_ready c w0" using u' w0 uniform_ready_back by simp
    have "objCounter (snd (calculateRange eng w0)) \<noteq> objCounter w0" using ch w0 by simp
    from uniform_ready_publish [OF u0 this] Cons.prems(3) show ?thesis
      using nr w0 by (simp add: multiplierFor_def MAX_SAFE_SCROLL_HEIGHT_def)
  qed
qed

lemma setup_uniform:
  assumes "getWasmModule (gw w) = Inr ()"
    and "\<forall>i<min 10 (itemCount (args w)). estimateSize (args w) i = estimateSize (args w) 0"
  shows "setupVirtualizer w =
     (None,
      w\<lparr>estimateCalls := estimateCalls w @ 0 # [1..<min 10 (itemCount (args w))],
        ctl := (ctl w)\<lparr>isUniform := True, uniformSize := estimateSize (args w) 0,
                  uniformVirtualizer :=
                    Some \<lparr>uh_id = handleCounter w, uh_count = itemCount (args w),
                          uh_size = estimateSize (args w) 0\<rparr>,
                  scrollMultiplier :=
                    multiplierFor (real (itemCount (args w)) * estimateSize (args w) 0),
                  isLoading := False\<rparr>,
        engineLog := Create (handleCounter w) # engineLog w,
        handleCounter := handleCounter w + 1,
        rafCounter := rafCounter w + 1,
        rafQueue := rafQueue w @ [(rafCounter w + 1, SetupFrame)]\<rparr>)"
proof -
  have "\<forall>i\<in>set [1..<min 10 (itemCount (args w))].
          estimateSize (args w) i = estimateSize (args w) 0"
  proof
    fix i assume "i \<in> set [1..<min 10 (itemCount (args w))]"
    then have "i < min 10 (itemCount (args w))" by simp
    then show "estimateSize (args w) i = estimateSize (args w) 0" using assms(2) by blast
  qed
  then have c: "check_uniform (estimateSize (args w)) (estimateSize (args w) 0)
          [1..<min 10 (itemCount (args w))] = (True, [1..<min 10 (itemCount (args w))])"
    by (rule check_uniform_all_equal)
  show ?thesis
    unfolding setupVirtualizer_def Let_def c
    by (simp add: createUniformVirtualizer_def assms(1) finishSetup_def
        requestAnimationFrame_def log_ops_def Let_def)
qed

lemma setup_variable:
  assumes "getWasmModule (gw w) = Inr ()"
    and "\<exists>i<min 10 (itemCount (args w)). estimateSize (args w) i \<noteq> estimateSize (args w) 0"
  shows "\<not> isUniform (ctl (snd (setupVirtualizer w)))"
    and "uniformVirtualizer (ctl (snd (setupVirtualizer w))) = uniformVirtualizer (ctl w)"
    and "itemCount (args w) \<le> MAX_ARRAY_LENGTH \<Longrightarrow> fst (setupVirtualizer w) = None"
    and "itemCount (args w) \<le> MAX_ARRAY_LENGTH \<Longrightarrow>
           virtualizer (ctl (snd (setupVirtualizer w))) =
             Some \<lparr>vh_id = handleCounter w,
                   vh_sizes = map (estimateSize (args w)) [0..<itemCount (args w)]\<rparr>"
proof -
  obtain i where i: "i < min 10 (itemCount (args w))"
    "estimateSize (args w) i \<noteq> estimateSize (args w) 0"
    using assms(2) by blast
  then have "i \<noteq> 0" by (cases "i = 0") auto
  then have "i \<in> set [1..<min 10 (itemCount (args w))]" using i by simp
  then have f: "\<not> fst (check_uniform (estimateSize (args w)) (estimateSize (args w) 0)
          [1..<min 10 (itemCount (args w))])"
    using i(2) unfolding check_uniform_fst by blast
  show "\<not> isUniform (ctl (snd (setupVirtualizer w)))"
    using f assms(1)
    by (simp add: setupVirtualizer_def Let_def createVirtualizer_def finishSetup_def
        requestAnimationFrame_def)
  show "uniformVirtualizer (ctl (snd (setupVirtualizer w))) = uniformVirtualizer (ctl w)"
    using f assms(1)
    by (simp add: setupVirtualizer_def Let_def createVirtualizer_def finishSetup_def
        requestAnimationFrame_def)
  show "itemCount (args w) \<le> MAX_ARRAY_LENGTH \<Longrightarrow> fst (setupVirtualizer w) = None"
    using f assms(1)
    by (simp add: setupVirtualizer_def Let_def createVirtualizer_def finishSetup_def
        requestAnimationFrame_def)
  show "itemCount (args w) \<le> MAX_ARRAY_LENGTH \<Longrightarrow>
           virtualizer (ctl (snd (setupVirtualizer w))) =
             Some \<lparr>vh_id = handleCounter w,
                   vh_sizes = map (estimateSize (args w)) [0..<itemCount (args w)]\<rparr>"
    using f assms(1)
    by (simp add: setupVirtualizer_def Let_def createVirtualizer_def finishSetup_def
        requestAnimationFrame_def)
qed

lemma loaded_world_fields:
  "getWasmModule (gw (loaded_world n est)) = Inr ()"
  "itemCount (args (loaded_world n est)) = n"
  "estimateSize (args (loaded_world n est)) = est"
  "wasmReady (ctl (loaded_world n est))"
  "\<not> initAwaiting (loaded_world n est)"
  "virtualizer (ctl (loaded_world n est)) = None"
  "handleCounter (loaded_world n est) = 0"
  "rangeV (ctl (loaded_world n est)) = rangeV new_controller"
  by (simp_all add: loaded_world_def construct_def sample_args_def new_controller_def)

lemma loaded_world_setup:
  "step eng (Install el) (snd (setupVirtualizer (loaded_world n (\<lambda>i. c)))) = uniform_world n c el"
proof -
  have "\<forall>i<min 10 (itemCount (args (loaded_world n (\<lambda>i. c)))).
     estimateSize (args (loaded_world n (\<lambda>i. c))) i = estimateSize (args (loaded_world n (\<lambda>i. c))) 0"
    by (simp add: loaded_world_fields)
  from setup_uniform [OF loaded_world_fields(1) this] show ?thesis
    by (simp add: loaded_world_fields)
       (simp add: loaded_world_def construct_def new_controller_def scrollElementRef_def
          requestAnimationFrame_def Let_def uniform_world_def sample_args_def)
qed



lemma gw_inv_idle: "gw_inv idle_gateway"
  by (simp add: gw_inv_def idle_gateway_def)

lemma gw_inv_step: "gw_inv g \<Longrightarrow> gw_inv (gw_step e g)"
proof (cases e)
  case Call
  assume "gw_inv g"
  then show ?thesis using Call
    by (auto simp add: gw_inv_def initializeWasm_def setStatus_def Let_def split: option.splits)
next
  case (ImportSettled r)
  assume "gw_inv g"
  then show ?thesis using ImportSettled
    by (auto simp add: gw_inv_def import_settled_def load_failed_def setStatus_def
        split: option.splits)
next
  case (InitSettled r)
  assume "gw_inv g"
  then show ?thesis using InitSettled
    by (auto simp add: gw_inv_def init_settled_def load_failed_def setStatus_def
        split: option.splits)
qed

lemma gw_inv_run: "gw_inv g \<Longrightarrow> gw_inv (gw_run evs g)"
  by (induction evs arbitrary: g) (simp_all add: gw_inv_step)

subsection \<open>The engine log\<close>




lemma free_count_append: "free_count h (a @ b) = free_count h a + free_count h b"
  by (simp add: free_count_def)




subsection \<open>Quiet transitions keep ownership\<close>




subsection \<open>What each operation adds to the log\<close>


lemma uses_of_ignores [simp]:
  "uses_of (c\<lparr>lastStart := a, lastEnd := b, lastPaddingTop := p\<rparr>) ops = uses_of c ops"
  by (simp add: uses_of_def held_in_def)








subsection \<open>Acquiring, replacing and releasing a handle\<close>








subsection \<open>Every event keeps ownership\<close>








subsection \<open>The log only grows\<close>






subsection \<open>After release\<close>







subsection \<open>The scrolling sample\<close>



subsection \<open>The skip rule\<close>

text \<open>
  C2. If a recomputation arrives at the skip test with \<open>start = lastStart\<close>,
  \<open>end = lastEnd\<close> and a padding within \<open>0.5\<close> of \<open>lastPaddingTop\<close>, then
  \<open>calculateRange\<close> returns with the whole world unchanged except for the record of the
  engine calls it made: no field of the controller is written and the range object stays
  the one it was. And for any world \<open>w0\<close>, a recomputation that directly follows
  another one neither publishes nor raises, and leaves the controller (so the range and
  its identity) and the object counter as the first one left them.
\<close>

theorem calculateRange_skip_rule:
  assumes "elementV (ctl w) = Some el"
    and "0 < viewportSizeOf (args w) el"
    and "window eng (ctl w) (args w) el = Some (start, end', first, pad, ops)"
    and "start = lastStart (ctl w)"
    and "end' = lastEnd (ctl w)"
    and "abs (pad - lastPaddingTop (ctl w)) < 0.5"
  shows "calculateRange eng w = (Skipped, w\<lparr>engineLog := rev ops @ engineLog w\<rparr>)
       \<and> fst (calculateRange eng (snd (calculateRange eng w0))) \<notin> {Published, Threw RangeError}
       \<and> ctl (snd (calculateRange eng (snd (calculateRange eng w0))))
           = ctl (snd (calculateRange eng w0))
       \<and> objCounter (snd (calculateRange eng (snd (calculateRange eng w0))))
           = objCounter (snd (calculateRange eng w0))"
proof -
  have "calculateRange eng w = (Skipped, w\<lparr>engineLog := rev ops @ engineLog w\<rparr>)"
    using assms by (simp add: calculateRange_def log_ops_def)
  then show ?thesis using calculateRange_twice [of eng w0] by blast
qed

theorem calculateRange_skip_rule_witness:
  "elementV (ctl settled_world) = Some (sample_element 0 100)
   \<and> 0 < viewportSizeOf (args settled_world) (sample_element 0 100)
   \<and> window sample_engine (ctl settled_world) (args settled_world) (sample_element 0 100)
       = Some (0, 5, 0, 0, [CalcRange 0])
   \<and> lastStart (ctl settled_world) = 0 \<and> lastEnd (ctl settled_world) = 5
   \<and> abs (0 - lastPaddingTop (ctl settled_world)) < 0.5
   \<and> calculateRange sample_engine settled_world
       = (Skipped, settled_world\<lparr>engineLog := [CalcRange 0] @ engineLog settled_world\<rparr>)
   \<and> rangeRef (ctl (snd (calculateRange sample_engine settled_world))) = 1"
proof -
  have a: "args settled_world = sample_args 1000 (\<lambda>i. 50)"
    by (simp add: settled_world_rest)
  have e: "elementV (ctl settled_world) = Some (sample_element 0 100)"
    by (simp add: settled_world_ctl)
  have v: "0 < viewportSizeOf (args settled_world) (sample_element 0 100)"
    unfolding a
    by (simp add: viewportSizeOf_def horizontalOf_def sample_args_def sample_element_def)
  have win: "window sample_engine (ctl settled_world) (args settled_world)
               (sample_element 0 100) = Some (0, 5, 0, 0, [CalcRange 0])"
    unfolding a settled_world_ctl by (simp add: sample_eval)
  have l: "0 = lastStart (ctl settled_world)" "5 = lastEnd (ctl settled_world)"
    "abs (0 - lastPaddingTop (ctl settled_world)) < 0.5"
    by (simp_all add: settled_world_ctl)
  have r: "rangeRef (ctl settled_world) = 1" by (simp add: settled_world_ctl)
  show ?thesis
    using calculateRange_skip_rule [OF e v win l, of settled_world] e v win l r by simp
qed

subsection \<open>Layout not settled\<close>

text \<open>
  C9. If the element is attached and its extent along the configured axis is not positive,
  \<open>calculateRange\<close> appends exactly one retry callback to the animation-frame queue
  and changes nothing else: no range is published, the accepted window is untouched and no
  error is raised.
\<close>

theorem calculateRange_layout_not_settled:
  assumes "elementV (ctl w) = Some el"
    and "viewportSizeOf (args w) el \<le> 0"
  shows "calculateRange eng w =
           (Rescheduled,
            w\<lparr>rafCounter := rafCounter w + 1,
              rafQueue := rafQueue w @ [(rafCounter w + 1, Recalc)]\<rparr>)"
  using assms by (simp add: calculateRange_def requestAnimationFrame_def Let_def)

theorem calculateRange_layout_not_settled_witness:
  "elementV (ctl (uniform_world 1000 50 (sample_element 0 0))) = Some (sample_element 0 0)
   \<and> viewportSizeOf (args (uniform_world 1000 50 (sample_element 0 0))) (sample_element 0 0) \<le> 0
   \<and> fst (calculateRange sample_engine (uniform_world 1000 50 (sample_element 0 0)))
        = Rescheduled
   \<and> rafQueue (snd (calculateRange sample_engine (uniform_world 1000 50 (sample_element 0 0))))
        = [(1, SetupFrame), (2, Recalc), (3, Recalc)]
   \<and> ctl (snd (calculateRange sample_engine (uniform_world 1000 50 (sample_element 0 0))))
        = ctl (uniform_world 1000 50 (sample_element 0 0))"
proof -
  let ?w = "uniform_world 1000 50 (sample_element 0 0)"
  have e: "elementV (ctl ?w) = Some (sample_element 0 0)"
    by (simp add: uniform_world_def new_controller_def)
  have v: "viewportSizeOf (args ?w) (sample_element 0 0) \<le> 0"
    by (simp add: uniform_world_def viewportSizeOf_def horizontalOf_def sample_args_def
        sample_element_def)
  have q: "rafQueue ?w = [(1, SetupFrame), (2, Recalc)] \<and> rafCounter ?w = 2"
    by (simp add: uniform_world_def)
  show ?thesis
    using calculateRange_layout_not_settled [OF e v, of sample_engine] e v q by simp
qed

subsection \<open>Sampling during setup\<close>

text \<open>
  C10. \<open>setupVirtualizer\<close> always calls the estimator with index 0 first, and keeps
  the answer as \<open>uniformSize\<close>; when the list is empty this is the only call.
\<close>

theorem setup_calls_estimator_at_zero:
  "(\<exists>rest. estimateCalls (snd (setupVirtualizer w)) = estimateCalls w @ 0 # rest)
   \<and> uniformSize (ctl (snd (setupVirtualizer w))) = estimateSize (args w) 0
   \<and> (itemCount (args w) = 0 \<longrightarrow>
        estimateCalls (snd (setupVirtualizer w)) = estimateCalls w @ [0])"
proof -
  have "uniformSize (ctl (snd (setupVirtualizer w))) = estimateSize (args w) 0"
    by (simp add: setupVirtualizer_def Let_def createUniformVirtualizer_def
        createVirtualizer_def finishSetup_def requestAnimationFrame_def
        split: sum.splits prod.splits)
  moreover have "itemCount (args w) = 0 \<longrightarrow>
        estimateCalls (snd (setupVirtualizer w)) = estimateCalls w @ [0]"
    by (simp add: setupVirtualizer_def Let_def createUniformVirtualizer_def
        createVirtualizer_def finishSetup_def requestAnimationFrame_def
        split: sum.splits prod.splits)
  ultimately show ?thesis using setupVirtualizer_calls by blast
qed

theorem setup_calls_estimator_at_zero_witness:
  "itemCount (args (construct (sample_args 0 (\<lambda>i. 50)) ready_gateway)) = 0
   \<and> estimateCalls (snd (setupVirtualizer (construct (sample_args 0 (\<lambda>i. 50)) ready_gateway))) = [0]"
proof -
  let ?w = "construct (sample_args 0 (\<lambda>i. 50)) ready_gateway"
  have n: "itemCount (args ?w) = 0" by (simp add: construct_def sample_args_def)
  have c: "estimateCalls ?w = []" by (simp add: construct_def)
  show ?thesis using setup_calls_estimator_at_zero [of ?w] n c by simp
qed

subsection \<open>Scroll multiplier\<close>




subsection \<open>Published ranges\<close>

text \<open>
  C1. The initial range, every range published while any sequence of events is processed
  from any state, and the range a single recomputation publishes, all satisfy
  \<open>0 \<le> startIndex \<le> endIndex \<le> itemCount\<close> (the count being the one read by the
  recomputation that published), and their three arrays have \<open>endIndex - startIndex\<close>
  entries.
\<close>

theorem published_ranges_well_formed:
  "range_ok n (rangeV new_controller)
   \<and> (\<forall>(m, r) \<in> set (publications eng evs w). range_ok m r)
   \<and> (fst (calculateRange eng w) = Published \<longrightarrow>
        range_ok (itemCount (args w)) (rangeV (ctl (snd (calculateRange eng w)))))"
proof -
  have "range_ok n (rangeV new_controller)"
    by (simp add: range_ok_def new_controller_def)
  moreover have "\<forall>(m, r) \<in> set (publications eng evs w). range_ok m r"
    using publications_range_ok by blast
  moreover have "fst (calculateRange eng w) = Published \<longrightarrow>
        range_ok (itemCount (args w)) (rangeV (ctl (snd (calculateRange eng w))))"
    using calculateRange_range_ok [of eng w] calculateRange_objCounter [of eng w] by simp
  ultimately show ?thesis by blast
qed

theorem published_ranges_well_formed_witness:
  "(1000, rangeV (ctl settled_world))
     \<in> set (publications sample_engine [Frame] (uniform_world 1000 50 (sample_element 0 100)))
   \<and> range_ok 1000 (rangeV (ctl settled_world))
   \<and> startIndex (rangeV (ctl settled_world)) = 0
   \<and> endIndex (rangeV (ctl settled_world)) = 5
   \<and> length (items (rangeV (ctl settled_world))) = 5"
proof -
  let ?w = "uniform_world 1000 50 (sample_element 0 100)"
  have o: "objCounter ?w = 0" by (simp add: uniform_world_def)
  have p: "publications sample_engine [Frame] ?w = [(1000, rangeV (ctl settled_world))]"
    using o settled_world_rest(1,2)
    by (simp add: settled_world_def [symmetric] sample_args_def del: step.simps)
  have "\<forall>(m, r) \<in> set (publications sample_engine [Frame] ?w). range_ok m r"
    using published_ranges_well_formed [of 0 sample_engine "[Frame]" ?w] by blast
  then show ?thesis unfolding p by (simp add: settled_world_ctl)
qed


subsection \<open>Choice of the uniform path\<close>

text \<open>
  C3. Let \<open>setupVirtualizer\<close> run with a ready gateway on a list of at least one item.
  If the estimator returns \<open>c\<close> at each of the first \<open>min 10 n\<close> indices, setup
  returns normally, sets \<open>isUniform\<close> and creates a uniform handle with the count and
  \<open>c\<close>; and every range published afterwards, along any sequence of events, has
  \<open>totalHeight = m * c\<close> whenever \<open>m * c \<le> 15000000\<close>, \<open>m\<close> being the item count
  at that publication. If one of these samples differs from the first, \<open>isUniform\<close>
  is cleared, no uniform handle is created, and (the count fitting an array) a variable
  handle is created from all sizes.
\<close>

theorem uniform_path_selection:
  assumes "getWasmModule (gw w) = Inr ()"
    and "1 \<le> itemCount (args w)"
    and "wasmReady (ctl w)"
    and "\<not> initAwaiting w"
    and "virtualizer (ctl w) = None"
  shows "((\<forall>i<min 10 (itemCount (args w)). estimateSize (args w) i = c) \<longrightarrow>
            fst (setupVirtualizer w) = None
          \<and> isUniform (ctl (snd (setupVirtualizer w)))
          \<and> uniformVirtualizer (ctl (snd (setupVirtualizer w))) =
               Some \<lparr>uh_id = handleCounter w, uh_count = itemCount (args w), uh_size = c\<rparr>
          \<and> engineLog (snd (setupVirtualizer w)) = Create (handleCounter w) # engineLog w
          \<and> (\<forall>(m, r) \<in> set (publications eng evs (snd (setupVirtualizer w))).
                real m * c \<le> 15000000 \<longrightarrow> totalHeight r = real m * c))
       \<and> ((\<exists>i<min 10 (itemCount (args w)).
              estimateSize (args w) i \<noteq> estimateSize (args w) 0) \<longrightarrow>
            \<not> isUniform (ctl (snd (setupVirtualizer w)))
          \<and> uniformVirtualizer (ctl (snd (setupVirtualizer w))) = uniformVirtualizer (ctl w)
          \<and> (itemCount (args w) \<le> MAX_ARRAY_LENGTH \<longrightarrow>
                fst (setupVirtualizer w) = None
              \<and> virtualizer (ctl (snd (setupVirtualizer w))) =
                  Some \<lparr>vh_id = handleCounter w,
                        vh_sizes = map (estimateSize (args w)) [0..<itemCount (args w)]\<rparr>))"
proof (intro conjI impI)
  assume a: "\<forall>i<min 10 (itemCount (args w)). estimateSize (args w) i = c"
  then have c: "estimateSize (args w) 0 = c" using assms(2) by simp
  then have a': "\<forall>i<min 10 (itemCount (args w)).
      estimateSize (args w) i = estimateSize (args w) 0" using a by simp
  note s = setup_uniform [OF assms(1) a', unfolded c]
  show "fst (setupVirtualizer w) = None" by (simp add: s)
  show "isUniform (ctl (snd (setupVirtualizer w)))" by (simp add: s)
  show "uniformVirtualizer (ctl (snd (setupVirtualizer w))) =
               Some \<lparr>uh_id = handleCounter w, uh_count = itemCount (args w), uh_size = c\<rparr>"
    by (simp add: s)
  show "engineLog (snd (setupVirtualizer w)) = Create (handleCounter w) # engineLog w"
    by (simp add: s)
  have "uniform_ready c (snd (setupVirtualizer w))"
    using assms(3,4,5) by (simp add: s uniform_ready_def)
  then show "\<forall>(m, r) \<in> set (publications eng evs (snd (setupVirtualizer w))).
                real m * c \<le> 15000000 \<longrightarrow> totalHeight r = real m * c"
    using uniform_ready_publications by blast
next
  assume b: "\<exists>i<min 10 (itemCount (args w)).
              estimateSize (args w) i \<noteq> estimateSize (args w) 0"
  show "\<not> isUniform (ctl (snd (setupVirtualizer w)))"
    using setup_variable(1) [OF assms(1) b] .
  show "uniformVirtualizer (ctl (snd (setupVirtualizer w))) = uniformVirtualizer (ctl w)"
    using setup_variable(2) [OF assms(1) b] .
  show "itemCount (args w) \<le> MAX_ARRAY_LENGTH \<Longrightarrow> fst (setupVirtualizer w) = None"
    using setup_variable(3) [OF assms(1) b] .
  show "itemCount (args w) \<le> MAX_ARRAY_LENGTH \<Longrightarrow>
     virtualizer (ctl (snd (setupVirtualizer w))) =
                  Some \<lparr>vh_id = handleCounter w,
                        vh_sizes = map (estimateSize (args w)) [0..<itemCount (args w)]\<rparr>"
    using setup_variable(4) [OF assms(1) b] .
qed

theorem uniform_path_selection_witness:
  "getWasmModule (gw (loaded_world 1000 (\<lambda>i. 50))) = Inr ()
   \<and> 1 \<le> itemCount (args (loaded_world 1000 (\<lambda>i. 50)))
   \<and> wasmReady (ctl (loaded_world 1000 (\<lambda>i. 50)))
   \<and> \<not> initAwaiting (loaded_world 1000 (\<lambda>i. 50))
   \<and> virtualizer (ctl (loaded_world 1000 (\<lambda>i. 50))) = None
   \<and> isUniform (ctl (snd (setupVirtualizer (loaded_world 1000 (\<lambda>i. 50)))))
   \<and> uniformVirtualizer (ctl (snd (setupVirtualizer (loaded_world 1000 (\<lambda>i. 50)))))
        = Some \<lparr>uh_id = 0, uh_count = 1000, uh_size = 50\<rparr>
   \<and> (1000, rangeV (ctl settled_world))
        \<in> set (publications sample_engine [Install (sample_element 0 100), Frame]
                  (snd (setupVirtualizer (loaded_world 1000 (\<lambda>i. 50)))))
   \<and> totalHeight (rangeV (ctl settled_world)) = 1000 * 50
   \<and> (\<exists>i<min 10 (4::nat). (if even i then 40 else 60::real) \<noteq> (if even (0::nat) then 40 else 60))
   \<and> \<not> isUniform (ctl (snd (setupVirtualizer (loaded_world 4 (\<lambda>i. if even i then 40 else 60)))))
   \<and> virtualizer (ctl (snd (setupVirtualizer (loaded_world 4 (\<lambda>i. if even i then 40 else 60)))))
        = Some \<lparr>vh_id = 0, vh_sizes = [40, 60, 40, 60]\<rparr>"
proof -
  let ?v = "loaded_world 4 (\<lambda>i. if even i then 40 else 60)"
  note g = loaded_world_fields [of 4 "\<lambda>i. if even i then 40 else 60"]
  have n4: "1 \<le> itemCount (args ?v)" by (simp add: g)
  have ex: "\<exists>i<min 10 (4::nat). (if even i then 40 else 60::real) \<noteq> (if even (0::nat) then 40 else 60)"
    by (rule exI [of _ 1]) simp
  have m4: "itemCount (args ?v) \<le> MAX_ARRAY_LENGTH" by (simp add: g MAX_ARRAY_LENGTH_def)
  have var: "\<not> isUniform (ctl (snd (setupVirtualizer ?v)))
     \<and> virtualizer (ctl (snd (setupVirtualizer ?v))) = Some \<lparr>vh_id = 0, vh_sizes = [40, 60, 40, 60]\<rparr>"
    using uniform_path_selection [OF g(1) n4 g(4) g(5) g(6), of 0 sample_engine "[]"] ex m4
    by (simp add: g upt_conv_Cons)
  let ?w = "loaded_world 1000 (\<lambda>i. 50)"
  note f = loaded_world_fields [of 1000 "\<lambda>i. 50"]
  have n: "1 \<le> itemCount (args ?w)" by (simp add: f)
  have t: "(\<forall>i<min 10 (itemCount (args ?w)). estimateSize (args ?w) i = 50)"
    by (simp add: f)
  have o: "objCounter (snd (setupVirtualizer ?w)) = 0"
    by (simp add: loaded_world_def construct_def)
  have o': "objCounter (uniform_world 1000 50 (sample_element 0 100)) = 0"
    by (simp add: uniform_world_def)
  have p: "publications sample_engine [Install (sample_element 0 100), Frame]
             (snd (setupVirtualizer ?w)) = [(1000, rangeV (ctl settled_world))]"
    using o o' settled_world_rest(1,2)
    by (simp add: loaded_world_setup settled_world_def [symmetric] sample_args_def
        del: step.simps)
  from uniform_path_selection [OF f(1) n f(4) f(5) f(6), of 50 sample_engine
      "[Install (sample_element 0 100), Frame]"] t
  show ?thesis unfolding p using var ex by (simp add: f settled_world_ctl)
qed

subsection \<open>Item-count change on the uniform path\<close>

text \<open>
  C7. In a loaded uniform controller holding its handle, \<open>handleItemCountChange\<close> sets
  the count of that same handle, sets the multiplier from \<open>count * uniformSize\<close>, sets
  \<open>lastStart\<close> and \<open>lastEnd\<close> to \<open>-1\<close> and runs \<open>calculateRange\<close> on that state
  \<open>w1\<close>. This recomputation never ends on the skip path; it publishes exactly when
  an element is attached, its extent is positive and the clamped window has
  \<open>start \<le> end\<close>, and what it publishes is a new range object with
  \<open>totalHeight = min (count * uniformSize / scrollMultiplier) 15000000\<close>.
\<close>

theorem uniform_count_change:
  assumes "wasmReady (ctl w)" and "\<not> isLoading (ctl w)"
    and "isUniform (ctl w)" and "uniformVirtualizer (ctl w) = Some u"
    and "n = itemCount (args w)"
    and "w1 = w\<lparr>engineLog := SetCount (uh_id u) # engineLog w,
                 ctl := (ctl w)\<lparr>uniformVirtualizer := Some (u\<lparr>uh_count := n\<rparr>),
                           scrollMultiplier :=
                             (if real n * uniformSize (ctl w) > 15000000
                              then real n * uniformSize (ctl w) / 15000000 else 1),
                           lastStart := - 1, lastEnd := - 1\<rparr>\<rparr>"
  shows "handleItemCountChange eng w
           = (Recomputed (fst (calculateRange eng w1)), snd (calculateRange eng w1))
       \<and> fst (calculateRange eng w1) \<noteq> Skipped
       \<and> (fst (calculateRange eng w1) = Published \<longleftrightarrow>
            (\<exists>el s e f p os. elementV (ctl w) = Some el \<and> 0 < viewportSizeOf (args w) el
               \<and> window eng (ctl w1) (args w) el = Some (s, e, f, p, os) \<and> s \<le> e))
       \<and> (fst (calculateRange eng w1) = Published \<longrightarrow>
             objCounter (snd (calculateRange eng w1)) = objCounter w + 1
           \<and> rangeRef (ctl (snd (calculateRange eng w1))) = objCounter w + 1
           \<and> totalHeight (rangeV (ctl (snd (calculateRange eng w1))))
               = min (real n * uniformSize (ctl w) / scrollMultiplier (ctl w1)) 15000000)"
proof -
  have h: "handleItemCountChange eng w
           = (Recomputed (fst (calculateRange eng w1)), snd (calculateRange eng w1))"
    using assms
    by (simp add: handleItemCountChange_def invalidateAndRecalc_def Let_def log_ops_def
        multiplierFor_def MAX_SAFE_SCROLL_HEIGHT_def)
  have a1: "args w1 = args w" "elementV (ctl w1) = elementV (ctl w)"
    "lastStart (ctl w1) = - 1" "objCounter w1 = objCounter w"
    "isUniform (ctl w1)" "uniformSize (ctl w1) = uniformSize (ctl w)"
    using assms by simp_all
  have ns: "fst (calculateRange eng w1) \<noteq> Skipped"
  proof
    assume sk: "fst (calculateRange eng w1) = Skipped"
    then obtain el where el: "elementV (ctl w1) = Some el"
      by (cases "elementV (ctl w1)") (auto simp add: calculateRange_def)
    have vp: "\<not> viewportSizeOf (args w1) el \<le> 0"
      using sk el by (auto simp add: calculateRange_def)
    obtain s e f p os where win: "window eng (ctl w1) (args w1) el = Some (s, e, f, p, os)"
      using sk el vp by (cases "window eng (ctl w1) (args w1) el") (auto simp add: calculateRange_def)
    have "0 \<le> s" using window_bounds [OF win] by simp
    then have "s \<noteq> lastStart (ctl w1)" using a1(3) by simp
    then have "calculateRange eng w1 = publishRange eng s e f p (log_ops os w1)"
      using el vp win by (simp add: calculateRange_def)
    then show False using sk by (simp add: publishRange_def Let_def split: if_splits)
  qed
  have iff: "fst (calculateRange eng w1) = Published \<longleftrightarrow>
            (\<exists>el s e f p os. elementV (ctl w) = Some el \<and> 0 < viewportSizeOf (args w) el
               \<and> window eng (ctl w1) (args w) el = Some (s, e, f, p, os) \<and> s \<le> e)"
  proof
    assume "fst (calculateRange eng w1) = Published"
    then show "\<exists>el s e f p os. elementV (ctl w) = Some el \<and> 0 < viewportSizeOf (args w) el
               \<and> window eng (ctl w1) (args w) el = Some (s, e, f, p, os) \<and> s \<le> e"
      using calculateRange_publishes [of eng w1] a1 by auto
  next
    assume "\<exists>el s e f p os. elementV (ctl w) = Some el \<and> 0 < viewportSizeOf (args w) el
               \<and> window eng (ctl w1) (args w) el = Some (s, e, f, p, os) \<and> s \<le> e"
    then obtain el s e f p os where el: "elementV (ctl w1) = Some el"
      and vp: "0 < viewportSizeOf (args w1) el"
      and win: "window eng (ctl w1) (args w1) el = Some (s, e, f, p, os)" and se: "s \<le> e"
      using a1 by auto
    have "0 \<le> s" using window_bounds [OF win] by simp
    then have "s \<noteq> lastStart (ctl w1)" using a1(3) by simp
    then have "calculateRange eng w1 = publishRange eng s e f p (log_ops os w1)"
      using el vp win by (simp add: calculateRange_def)
    then show "fst (calculateRange eng w1) = Published"
      using publishRange_Published(1) [OF se] by simp
  qed
  have pub: "fst (calculateRange eng w1) = Published \<longrightarrow>
             objCounter (snd (calculateRange eng w1)) = objCounter w + 1
           \<and> rangeRef (ctl (snd (calculateRange eng w1))) = objCounter w + 1
           \<and> totalHeight (rangeV (ctl (snd (calculateRange eng w1))))
               = min (real n * uniformSize (ctl w) / scrollMultiplier (ctl w1)) 15000000"
  proof
    assume "fst (calculateRange eng w1) = Published"
    then obtain el s e f p os where se: "s \<le> e"
      and c: "calculateRange eng w1 = publishRange eng s e f p (log_ops os w1)"
      using calculateRange_publishes [of eng w1] by blast
    have "fst (computeTotalHeight eng (ctl w1) (itemCount (args w1)))
            = real n * uniformSize (ctl w) / scrollMultiplier (ctl w1)"
      using a1 assms(5) by (simp add: computeTotalHeight_def)
    then show "objCounter (snd (calculateRange eng w1)) = objCounter w + 1
           \<and> rangeRef (ctl (snd (calculateRange eng w1))) = objCounter w + 1
           \<and> totalHeight (rangeV (ctl (snd (calculateRange eng w1))))
               = min (real n * uniformSize (ctl w) / scrollMultiplier (ctl w1)) 15000000"
      using publishRange_Published(2,3,7) [OF se, of eng f p "log_ops os w1"] a1(4)
      by (simp add: c MAX_SAFE_SCROLL_HEIGHT_def)
  qed
  show ?thesis using h ns iff pub by blast
qed

theorem uniform_count_change_witness:
  "wasmReady (ctl grown_world) \<and> \<not> isLoading (ctl grown_world) \<and> isUniform (ctl grown_world)
   \<and> uniformVirtualizer (ctl grown_world) = Some \<lparr>uh_id = 0, uh_count = 1000, uh_size = 50\<rparr>
   \<and> itemCount (args grown_world) = 2000
   \<and> totalHeight (rangeV (ctl grown_world)) = 50000
   \<and> rangeRef (ctl grown_world) = 1
   \<and> step sample_engine (ArgsItemCount 2000) settled_world
        = snd (handleItemCountChange sample_engine grown_world)
   \<and> fst (handleItemCountChange sample_engine grown_world) = Recomputed Published
   \<and> uniformVirtualizer (ctl (snd (handleItemCountChange sample_engine grown_world)))
        = Some \<lparr>uh_id = 0, uh_count = 2000, uh_size = 50\<rparr>
   \<and> rangeRef (ctl (snd (handleItemCountChange sample_engine grown_world))) = 2
   \<and> totalHeight (rangeV (ctl (snd (handleItemCountChange sample_engine grown_world)))) = 100000"
proof -
  let ?u = "\<lparr>uh_id = 0, uh_count = 1000, uh_size = 50\<rparr> :: QuantumUniform"
  let ?w1 = "grown_world\<lparr>engineLog := SetCount (uh_id ?u) # engineLog grown_world,
                 ctl := (ctl grown_world)\<lparr>uniformVirtualizer := Some (?u\<lparr>uh_count := 2000\<rparr>),
                           scrollMultiplier :=
                             (if real 2000 * uniformSize (ctl grown_world) > 15000000
                              then real 2000 * uniformSize (ctl grown_world) / 15000000 else 1),
                           lastStart := - 1, lastEnd := - 1\<rparr>\<rparr>"
  have g: "ctl grown_world = ctl settled_world"
    "args grown_world = (sample_args 1000 (\<lambda>i. 50))\<lparr>itemCount := 2000\<rparr>"
    "objCounter grown_world = 1"
    by (simp_all add: grown_world_def settled_world_rest)
  have h1: "wasmReady (ctl grown_world)" and h2: "\<not> isLoading (ctl grown_world)"
    and h3: "isUniform (ctl grown_world)"
    and h4: "uniformVirtualizer (ctl grown_world) = Some ?u"
    and h5: "2000 = itemCount (args grown_world)"
    by (simp_all add: g settled_world_ctl)
  have win: "window sample_engine (ctl ?w1) (args grown_world) (sample_element 0 100)
               = Some (0, 5, 0, 0, [CalcRange 0])"
    unfolding g settled_world_ctl by (simp add: sample_eval)
  have el: "elementV (ctl grown_world) = Some (sample_element 0 100)"
    by (simp add: g settled_world_ctl)
  have vp: "0 < viewportSizeOf (args grown_world) (sample_element 0 100)"
    unfolding g by (simp add: sample_eval)
  have ex: "\<exists>el s e f p os. elementV (ctl grown_world) = Some el
      \<and> 0 < viewportSizeOf (args grown_world) el
      \<and> window sample_engine (ctl ?w1) (args grown_world) el = Some (s, e, f, p, os) \<and> s \<le> e"
    using el vp win by (intro exI conjI) (assumption, assumption, assumption, simp)
  have st: "step sample_engine (ArgsItemCount 2000) settled_world
        = snd (handleItemCountChange sample_engine grown_world)"
    by (simp add: grown_world_def)
  have m: "scrollMultiplier (ctl ?w1) = 1" "uniformSize (ctl grown_world) = 50"
    "uniformVirtualizer (ctl ?w1) = Some \<lparr>uh_id = 0, uh_count = 2000, uh_size = 50\<rparr>"
    by (simp_all add: g settled_world_ctl)
  have r: "totalHeight (rangeV (ctl grown_world)) = 50000" "rangeRef (ctl grown_world) = 1"
    by (simp_all add: g settled_world_ctl)
  from uniform_count_change [OF h1 h2 h3 h4 h5 refl, of sample_engine] ex
  show ?thesis using h1 h2 h3 h4 h5 st m r g(3) by simp
qed

subsection \<open>Empty list\<close>




subsection \<open>Single-flight initialization\<close>

text \<open>
  C6. In every state the gateway reaches from idle: while the asynchronous body is suspended
  (a load is in flight) a call returns the stored pending promise and changes nothing, so
  no second load starts; once the status is \<open>Ready\<close> a call returns an already resolved
  promise and changes nothing; otherwise a call starts one load under a fresh promise.
  A failure at either \<open>await\<close> clears the marker and sets status and error, and the next
  call starts a fresh load with a promise different from the failed one; success clears the
  marker and sets \<open>Ready\<close>.
\<close>

theorem initializeWasm_single_flight:
  assumes "g = gw_run evs idle_gateway"
  shows "(body g \<noteq> NotRunning \<longrightarrow>
            (\<exists>p. initializationPromise g = Some p \<and> initializeWasm g = (Pending p, g)))
       \<and> (wasmStatus g = Ready \<longrightarrow> initializeWasm g = (Resolved, g))
       \<and> (body g = NotRunning \<and> wasmStatus g \<noteq> Ready \<longrightarrow>
            fst (initializeWasm g) = Pending (promiseCounter g)
          \<and> initializationPromise (snd (initializeWasm g)) = Some (promiseCounter g)
          \<and> body (snd (initializeWasm g)) = AwaitImport
          \<and> wasmStatus (snd (initializeWasm g)) = Initializing
          \<and> loadsStarted (snd (initializeWasm g)) = loadsStarted g + 1)
       \<and> (body g = AwaitImport \<longrightarrow>
            initializationPromise (import_settled (Some e) g) = None
          \<and> wasmStatus (import_settled (Some e) g) = Failed
          \<and> wasmError (import_settled (Some e) g) = Some e
          \<and> loadsStarted (snd (initializeWasm (import_settled (Some e) g))) = loadsStarted g + 1
          \<and> fst (initializeWasm (import_settled (Some e) g)) = Pending (promiseCounter g)
          \<and> initializationPromise g \<noteq> Some (promiseCounter g))
       \<and> (body g = AwaitInit \<longrightarrow>
            initializationPromise (init_settled (Some e) g) = None
          \<and> wasmStatus (init_settled (Some e) g) = Failed
          \<and> wasmError (init_settled (Some e) g) = Some e
          \<and> loadsStarted (snd (initializeWasm (init_settled (Some e) g))) = loadsStarted g + 1
          \<and> fst (initializeWasm (init_settled (Some e) g)) = Pending (promiseCounter g)
          \<and> initializationPromise g \<noteq> Some (promiseCounter g)
          \<and> initializationPromise (init_settled None g) = None
          \<and> wasmStatus (init_settled None g) = Ready
          \<and> initializeWasm (init_settled None g) = (Resolved, init_settled None g))"
proof -
  have i: "gw_inv g" unfolding assms by (rule gw_inv_run [OF gw_inv_idle])
  show ?thesis
  proof (intro conjI impI)
    assume "body g \<noteq> NotRunning"
    then show "\<exists>p. initializationPromise g = Some p \<and> initializeWasm g = (Pending p, g)"
      using i by (auto simp add: gw_inv_def initializeWasm_def)
  next
    assume "wasmStatus g = Ready"
    then show "initializeWasm g = (Resolved, g)"
      using i by (auto simp add: gw_inv_def initializeWasm_def split: option.splits)
  next
    assume a: "body g = NotRunning \<and> wasmStatus g \<noteq> Ready"
    then have n: "initializationPromise g = None" using i by (simp add: gw_inv_def)
    show "fst (initializeWasm g) = Pending (promiseCounter g)"
      "initializationPromise (snd (initializeWasm g)) = Some (promiseCounter g)"
      "body (snd (initializeWasm g)) = AwaitImport"
      "wasmStatus (snd (initializeWasm g)) = Initializing"
      "loadsStarted (snd (initializeWasm g)) = loadsStarted g + 1"
      using a n by (simp_all add: initializeWasm_def setStatus_def Let_def)
  next
    assume a: "body g = AwaitImport"
    show "initializationPromise (import_settled (Some e) g) = None"
      "wasmStatus (import_settled (Some e) g) = Failed"
      "wasmError (import_settled (Some e) g) = Some e"
      "loadsStarted (snd (initializeWasm (import_settled (Some e) g))) = loadsStarted g + 1"
      "fst (initializeWasm (import_settled (Some e) g)) = Pending (promiseCounter g)"
      using a by (simp_all add: import_settled_def load_failed_def initializeWasm_def
          setStatus_def Let_def)
    show "initializationPromise g \<noteq> Some (promiseCounter g)"
      using i by (auto simp add: gw_inv_def)
  next
    assume a: "body g = AwaitInit"
    show "initializationPromise (init_settled (Some e) g) = None"
      "wasmStatus (init_settled (Some e) g) = Failed"
      "wasmError (init_settled (Some e) g) = Some e"
      "loadsStarted (snd (initializeWasm (init_settled (Some e) g))) = loadsStarted g + 1"
      "fst (initializeWasm (init_settled (Some e) g)) = Pending (promiseCounter g)"
      "initializationPromise (init_settled None g) = None"
      "wasmStatus (init_settled None g) = Ready"
      "initializeWasm (init_settled None g) = (Resolved, init_settled None g)"
      using a by (simp_all add: init_settled_def load_failed_def initializeWasm_def
          setStatus_def Let_def)
    show "initializationPromise g \<noteq> Some (promiseCounter g)"
      using i by (auto simp add: gw_inv_def)
  qed
qed

theorem initializeWasm_single_flight_witness:
  "initializeWasm (gw_run [Call] idle_gateway) = (Pending 0, gw_run [Call] idle_gateway)
   \<and> loadsStarted (gw_run [Call, Call, Call] idle_gateway) = 1
   \<and> body (gw_run [Call, ImportSettled None] idle_gateway) = AwaitInit
   \<and> initializeWasm (gw_run [Call, ImportSettled None, InitSettled None] idle_gateway)
        = (Resolved, gw_run [Call, ImportSettled None, InitSettled None] idle_gateway)
   \<and> wasmStatus (gw_run [Call, ImportSettled (Some (LoadError ''network''))] idle_gateway) = Failed
   \<and> fst (initializeWasm (gw_run [Call, ImportSettled (Some (LoadError ''network''))] idle_gateway))
        = Pending 1
   \<and> loadsStarted (gw_run [Call, ImportSettled (Some (LoadError ''network'')), Call] idle_gateway) = 2"
proof -
  have b1: "body (gw_run [Call] idle_gateway) = AwaitImport"
    "initializationPromise (gw_run [Call] idle_gateway) = Some 0"
    "promiseCounter (gw_run [Call] idle_gateway) = 1"
    "loadsStarted (gw_run [Call] idle_gateway) = 1"
    by (simp_all add: initializeWasm_def idle_gateway_def setStatus_def Let_def)
  have b2: "body (gw_run [Call, ImportSettled None] idle_gateway) = AwaitInit"
    by (simp add: initializeWasm_def idle_gateway_def setStatus_def Let_def import_settled_def)
  have r2: "gw_run [Call, ImportSettled None, InitSettled None] idle_gateway
      = init_settled None (gw_run [Call, ImportSettled None] idle_gateway)" by simp
  have r3: "gw_run [Call, ImportSettled (Some (LoadError ''network''))] idle_gateway
      = import_settled (Some (LoadError ''network'')) (gw_run [Call] idle_gateway)" by simp
  have r4: "gw_run [Call, ImportSettled (Some (LoadError ''network'')), Call] idle_gateway
      = snd (initializeWasm (import_settled (Some (LoadError ''network'')) (gw_run [Call] idle_gateway)))"
    by simp
  have r5: "gw_run [Call, Call, Call] idle_gateway
      = snd (initializeWasm (snd (initializeWasm (gw_run [Call] idle_gateway))))" by simp
  note t1 = initializeWasm_single_flight [OF refl, of "[Call]" "LoadError ''network''"]
  note t2 = initializeWasm_single_flight [OF refl, of "[Call, ImportSettled None]" "LoadError ''network''"]
  have c1: "initializeWasm (gw_run [Call] idle_gateway) = (Pending 0, gw_run [Call] idle_gateway)"
    using t1 b1 by auto
  show ?thesis
    unfolding r2 r3 r4 r5 using t1 t2 b1 b2 c1 by (simp del: gw_run.simps)
qed


subsection \<open>Teardown\<close>





end
